theory Spec2Isabelle
  imports Main "HOL-Library.Word"
begin

section \<open>The TI System Control Interface protocol driver (drivers/firmware/ti\_sci.c)\<close>

text \<open>
  The driver keeps a fixed pool of message slots (\<open>xfer_block\<close>), a bitmap of the slots
  in use (\<open>xfer_alloc_table\<close>) and a counting semaphore (\<open>sem_xfer_count\<close>) bounding
  how many slots are in use at once. A caller takes a slot with \<open>ti_sci_get_one_xfer\<close>,
  sends its message and waits in \<open>ti_sci_do_xfer\<close>, and gives the slot back with
  \<open>ti_sci_put_one_xfer\<close>; the mailbox framework hands every received message to
  \<open>ti_sci_rx_callback\<close>.

  Each C function is a HOL function on an explicit state. The caller threads and the
  receive interrupt are interleaved at the granularity of these functions: the bitmap is
  only touched under \<open>xfer_lock\<close>, and a caller blocked on the semaphore or on a
  completion is a caller whose step has not happened yet. An allocation drops the lock
  right after \<open>set_bit\<close> and fills in the slot afterwards, and the callback tests the bit
  without the lock; the finer runs of the model split the allocation there. A result
  \<open>None\<close> is an access
  outside the memory object the C code indexes (a slot outside \<open>xfer_block\<close>, a bit outside
  the bitmap, a byte outside a buffer): C leaves that undefined.
\<close>

subsection \<open>Kernel constants and primitives\<close>

text \<open>
  Modelled from the spec: the kernel headers behind ti\_sci.c (error numbers, the width of
  a long, bitmap operations, the counting semaphore, the completion, the allocator) are
  not among the sources. The admission gate, the allocation table and the completion
  signal of the spec are modelled by what the kernel documents for \<open>down_timeout\<close> and
  \<open>up\<close>, for \<open>test_bit\<close>, \<open>set_bit\<close>, \<open>clear_bit\<close> and \<open>find_first_zero_bit\<close>, and for
  \<open>complete\<close>, \<open>reinit_completion\<close> and \<open>wait_for_completion_timeout\<close>.
\<close>

type_synonym u8 = "8 word"
type_synonym u16 = "16 word"
type_synonym u32 = "32 word"

text \<open>A C \<open>int\<close>: 32 bits, read as two's complement by \<open>sint\<close>.\<close>

type_synonym c_int = "32 word"

text \<open>Error numbers of include/uapi/asm-generic/errno(-base).h.\<close>

definition ENOMEM :: int where "ENOMEM = 12"
definition EINVAL :: int where "EINVAL = 22"
definition ERANGE :: int where "ERANGE = 34"
definition ETIME :: int where "ETIME = 62"
definition ETIMEDOUT :: int where "ETIMEDOUT = 110"

text \<open>
  The width of \<open>unsigned long\<close> and \<open>size_t\<close>. The one SoC the driver describes (K2G) is
  a 32-bit ARM.
\<close>

definition BITS_PER_LONG :: nat where "BITS_PER_LONG = 32"

text \<open>
  The \<open>int\<close> fields of the description meet \<open>size_t\<close> and \<open>unsigned long\<close> operands in
  comparisons and calls; C converts the \<open>int\<close> modulo \<open>2 ^ BITS_PER_LONG\<close>.
\<close>

definition size_t_of_int :: "c_int \<Rightarrow> nat" where
  "size_t_of_int v = nat (sint v mod 2 ^ BITS_PER_LONG)"

definition BITS_TO_LONGS :: "nat \<Rightarrow> nat" where
  "BITS_TO_LONGS nr = (nr + BITS_PER_LONG - 1) div BITS_PER_LONG"

text \<open>
  A bitmap is the list of its bits, as long as the memory that holds it
  (a whole number of longs). \<open>set_bit_bitmap\<close> is the kernel's \<open>set_bit\<close>.
\<close>

type_synonym bitmap = "bool list"

definition test_bit :: "nat \<Rightarrow> bitmap \<Rightarrow> bool option" where
  "test_bit nr addr = (if nr < length addr then Some (addr ! nr) else None)"

definition set_bit_bitmap :: "nat \<Rightarrow> bitmap \<Rightarrow> bitmap option" where
  "set_bit_bitmap nr addr = (if nr < length addr then Some (addr[nr := True]) else None)"

definition clear_bit :: "nat \<Rightarrow> bitmap \<Rightarrow> bitmap option" where
  "clear_bit nr addr = (if nr < length addr then Some (addr[nr := False]) else None)"

fun first_zero :: "bitmap \<Rightarrow> nat" where
  "first_zero [] = 0"
| "first_zero (b # bs) = (if b then Suc (first_zero bs) else 0)"

text \<open>
  \<open>find_first_zero_bit addr sz\<close> is the index of the first clear bit among the first
  \<open>sz\<close> bits, and \<open>sz\<close> when all of them are set. A scan that finds no clear bit
  before the end of the memory, and has not reached \<open>sz\<close>, reads on past the bitmap.
\<close>

definition find_first_zero_bit :: "bitmap \<Rightarrow> nat \<Rightarrow> nat option" where
  "find_first_zero_bit addr sz =
     (let k = first_zero (take sz addr)
      in if k < length (take sz addr) then Some k
         else if sz \<le> length addr then Some sz
         else None)"

definition bitmap_weight :: "bitmap \<Rightarrow> nat" where
  "bitmap_weight addr = length (filter (\<lambda>b. b) addr)"

text \<open>
  The counting semaphore is its count. \<open>down_timeout\<close> takes a credit when there is one;
  with none, and nobody releasing one before the timeout, it returns \<open>-ETIME\<close>.
\<close>

definition down_timeout :: "nat \<Rightarrow> int \<times> nat" where
  "down_timeout count = (if 0 < count then (0, count - 1) else (- ETIME, count))"

definition up :: "nat \<Rightarrow> nat" where
  "up count = count + 1"

text \<open>
  A completion is its \<open>done\<close> counter: \<open>complete\<close> increments it, a waiter consumes one,
  and \<open>wait_for_completion_timeout\<close> returns 0 when the counter is still 0 at the timeout
  (the second component is true when the wait was satisfied).
\<close>

definition init_completion :: nat where
  "init_completion = 0"

definition reinit_completion :: "nat \<Rightarrow> nat" where
  "reinit_completion x = 0"

definition complete :: "nat \<Rightarrow> nat" where
  "complete x = x + 1"

definition wait_for_completion_timeout :: "nat \<Rightarrow> nat \<times> bool" where
  "wait_for_completion_timeout x = (if 0 < x then (x - 1, True) else (x, False))"

subsection \<open>Data\<close>

text \<open>
  \<open>struct ti_msgmgr_message\<close>: a length and a pointer. \<open>buf\<close> is the memory the pointer
  refers to, which may hold more bytes than \<open>len\<close> says.
\<close>

record ti_msgmgr_message =
  len :: nat
  buf :: "u8 list"

text \<open>
  \<open>struct ti_sci_xfer\<close>. Probe sets \<open>tx_message.buf\<close> to \<open>xfer_buf\<close> and nothing changes
  either pointer afterwards, so the slot has one buffer: the transmit message, its header
  and the copy of the reply are the same bytes. \<open>tx_message_len\<close> is \<open>tx_message.len\<close>,
  \<open>xfer_done\<close> the completion \<open>done\<close>.
\<close>

record ti_sci_xfer =
  tx_message_len :: nat
  rx_len :: nat
  xfer_buf :: "u8 list"
  xfer_done :: nat

record ti_sci_xfers_info =
  sem_xfer_count :: nat
  xfer_block :: "ti_sci_xfer list"
  xfer_alloc_table :: bitmap

record ti_sci_desc =
  host_id :: u8
  max_rx_timeout_ms :: c_int
  max_msgs :: c_int
  max_msg_size :: c_int

record ti_sci_version_info =
  abi_major :: u8
  abi_minor :: u8
  firmware_revision :: u16
  firmware_description :: "u8 list"

text \<open>
  \<open>struct ti_sci_info\<close>, without the device, debugfs, mailbox channel and registry
  fields: \<open>version\<close> is \<open>handle.version\<close>.
\<close>

record ti_sci_info =
  desc :: ti_sci_desc
  version :: ti_sci_version_info
  minfo :: ti_sci_xfers_info

text \<open>
  Modelled from the spec: \<open>struct ti_sci_msg_hdr\<close> and \<open>struct ti_sci_msg_resp_version\<close>
  are declared in ti\_sci.h, which is not among the sources. The header has the fields
  type, host, seq and flags in this order (spec section 6), of 16, 8, 8 and 32 bits (the
  format of \<open>ti_sci_dump_header_dbg\<close>, and the \<open>u8\<close> the code reads \<open>seq\<close> into), packed
  and in the byte order of the CPU (little-endian). The version reply is the header, a
  description of 32 characters, the firmware revision (16 bits) and the two ABI numbers
  (8 bits each). \<open>TI_SCI_MSG_VERSION\<close> is the message type 2.
\<close>

definition sizeof_hdr :: nat where
  "sizeof_hdr = 8"

definition sizeof_hdr_seq :: nat where
  "sizeof_hdr_seq = 1"

definition sizeof_resp_version :: nat where
  "sizeof_resp_version = 44"

definition TI_SCI_MSG_VERSION :: u16 where
  "TI_SCI_MSG_VERSION = 2"

definition hdr_type :: "u8 list \<Rightarrow> u16" where
  "hdr_type b = word_cat (b ! 1) (b ! 0)"

definition hdr_host :: "u8 list \<Rightarrow> u8" where
  "hdr_host b = b ! 2"

definition hdr_seq :: "u8 list \<Rightarrow> u8" where
  "hdr_seq b = b ! 3"

definition hdr_flags :: "u8 list \<Rightarrow> u32" where
  "hdr_flags b = word_cat (b ! 7) (word_cat (b ! 6) (word_cat (b ! 5) (b ! 4) :: u16) :: 24 word)"

definition hdr_set_type :: "u16 \<Rightarrow> u8 list \<Rightarrow> u8 list" where
  "hdr_set_type v b = b[0 := ucast v, 1 := ucast (drop_bit 8 v)]"

definition hdr_set_host :: "u8 \<Rightarrow> u8 list \<Rightarrow> u8 list" where
  "hdr_set_host v b = b[2 := v]"

definition hdr_set_seq :: "u8 \<Rightarrow> u8 list \<Rightarrow> u8 list" where
  "hdr_set_seq v b = b[3 := v]"

definition hdr_set_flags :: "u32 \<Rightarrow> u8 list \<Rightarrow> u8 list" where
  "hdr_set_flags v b =
     b[4 := ucast v, 5 := ucast (drop_bit 8 v), 6 := ucast (drop_bit 16 v),
       7 := ucast (drop_bit 24 v)]"

definition resp_version :: "u8 list \<Rightarrow> ti_sci_version_info" where
  "resp_version b =
     \<lparr>abi_major = b ! 42, abi_minor = b ! 43,
      firmware_revision = word_cat (b ! 41) (b ! 40),
      firmware_description = take 32 (drop 8 b)\<rparr>"

text \<open>The lines the receive path writes with \<open>dev_err\<close>, with their arguments.\<close>

datatype dev_err =
  Message_not_expected nat
| Unable_to_handle_xfer nat c_int
| Recv_xfer_less_than_expected nat nat

subsection \<open>The receive callback\<close>

text \<open>
  \<open>&minfo->xfer_block[i]\<close>: the slot, when the index is inside the block.
\<close>

definition xfer_at :: "ti_sci_xfers_info \<Rightarrow> nat \<Rightarrow> ti_sci_xfer option" where
  "xfer_at mi i = (if i < length (xfer_block mi) then Some (xfer_block mi ! i) else None)"

definition xfer_store :: "nat \<Rightarrow> ti_sci_xfer \<Rightarrow> ti_sci_info \<Rightarrow> ti_sci_info" where
  "xfer_store i xfer info =
     info\<lparr>minfo := (minfo info)\<lparr>xfer_block := (xfer_block (minfo info))[i := xfer]\<rparr>\<rparr>"

text \<open>
  \<open>memcpy dst src n\<close> overwrites the first \<open>n\<close> bytes of \<open>dst\<close>; both objects must hold
  \<open>n\<close> bytes.
\<close>

definition memcpy :: "u8 list \<Rightarrow> u8 list \<Rightarrow> nat \<Rightarrow> u8 list option" where
  "memcpy dst src n =
     (if n \<le> length dst \<and> n \<le> length src then Some (take n src @ drop n dst) else None)"

text \<open>
  \<open>ti_sci_rx_callback\<close> (lines 260 to 301). The sequence number is read from the
  message buffer first, whatever \<open>len\<close> is; the result carries the \<open>dev_err\<close> lines
  written and the state. \<open>dev_dbg\<close> output is not modelled.
\<close>

definition ti_sci_rx_callback ::
  "ti_sci_info \<Rightarrow> ti_msgmgr_message \<Rightarrow> (dev_err list \<times> ti_sci_info) option" where
  "ti_sci_rx_callback info mbox_msg =
     (if length (buf mbox_msg) \<le> 3 then None
      else
        let xfer_id = unat (hdr_seq (buf mbox_msg)) in
        case test_bit xfer_id (xfer_alloc_table (minfo info)) of
          None \<Rightarrow> None
        | Some False \<Rightarrow> Some ([Message_not_expected xfer_id], info)
        | Some True \<Rightarrow>
            (case xfer_at (minfo info) xfer_id of
               None \<Rightarrow> None
             | Some xfer \<Rightarrow>
                 if len mbox_msg > size_t_of_int (max_msg_size (desc info))
                 then Some ([Unable_to_handle_xfer (len mbox_msg) (max_msg_size (desc info))],
                            info)
                 else if len mbox_msg < rx_len xfer
                 then Some ([Recv_xfer_less_than_expected (len mbox_msg) (rx_len xfer)], info)
                 else
                   (case memcpy (xfer_buf xfer) (buf mbox_msg) (rx_len xfer) of
                      None \<Rightarrow> None
                    | Some b \<Rightarrow>
                        Some ([], xfer_store xfer_id
                                    (xfer\<lparr>xfer_buf := b,
                                           xfer_done := complete (xfer_done xfer)\<rparr>) info))))"

subsection \<open>Allocating and releasing a slot\<close>

text \<open>
  \<open>ti_sci_get_one_xfer\<close> (lines 320 to 380). The result is \<open>Inl\<close> of the error the
  \<open>ERR_PTR\<close> carries, or \<open>Inr\<close> of the index of the slot the returned pointer refers to,
  with the state at the return. The size guard is written as in the source, with its
  repeated fourth disjunct; the casts to \<open>u8\<close> are \<open>mod 256\<close>.
\<close>

definition ti_sci_get_one_xfer ::
  "ti_sci_info \<Rightarrow> u16 \<Rightarrow> u32 \<Rightarrow> nat \<Rightarrow> nat \<Rightarrow> ((int + nat) \<times> ti_sci_info) option" where
  "ti_sci_get_one_xfer info msg_type msg_flags tx_message_size rx_message_size =
     (if rx_message_size > size_t_of_int (max_msg_size (desc info)) \<or>
         tx_message_size > size_t_of_int (max_msg_size (desc info)) \<or>
         rx_message_size < sizeof_hdr \<or> rx_message_size < sizeof_hdr
      then Some (Inl (- ERANGE), info)
      else
        case down_timeout (sem_xfer_count (minfo info)) of (ret, sem) \<Rightarrow>
        if ret < 0 then Some (Inl ret, info\<lparr>minfo := (minfo info)\<lparr>sem_xfer_count := sem\<rparr>\<rparr>)
        else
          (case find_first_zero_bit (xfer_alloc_table (minfo info))
                  (size_t_of_int (max_msgs (desc info))) of
             None \<Rightarrow> None
           | Some bit_pos \<Rightarrow>
               (case set_bit_bitmap bit_pos (xfer_alloc_table (minfo info)) of
                  None \<Rightarrow> None
                | Some table \<Rightarrow>
                    let xfer_id = bit_pos mod 256 in
                    (case xfer_at (minfo info) xfer_id of
                       None \<Rightarrow> None
                     | Some xfer \<Rightarrow>
                         if length (xfer_buf xfer) < sizeof_hdr then None
                         else
                           Some (Inr xfer_id,
                             xfer_store xfer_id
                               (xfer\<lparr>tx_message_len := tx_message_size,
                                      rx_len := rx_message_size mod 256,
                                      xfer_done := reinit_completion (xfer_done xfer),
                                      xfer_buf :=
                                        hdr_set_flags msg_flags
                                          (hdr_set_host (host_id (desc info))
                                            (hdr_set_type msg_type
                                              (hdr_set_seq (of_nat xfer_id) (xfer_buf xfer))))\<rparr>)
                               (info\<lparr>minfo := (minfo info)\<lparr>sem_xfer_count := sem,
                                                 xfer_alloc_table := table\<rparr>\<rparr>))))))"

text \<open>
  \<open>ti_sci_put_one_xfer\<close> (lines 389 to 410). The argument is the index of the slot the
  pointer refers to. The bit cleared is the one the slot's header names; the semaphore is
  raised whatever the bit was.
\<close>

definition ti_sci_put_one_xfer :: "ti_sci_xfers_info \<Rightarrow> nat \<Rightarrow> ti_sci_xfers_info option" where
  "ti_sci_put_one_xfer mi xfer_ix =
     (case xfer_at mi xfer_ix of
        None \<Rightarrow> None
      | Some xfer \<Rightarrow>
          if length (xfer_buf xfer) \<le> 3 then None
          else
            let xfer_id = unat (hdr_seq (xfer_buf xfer)) in
            (case clear_bit xfer_id (xfer_alloc_table mi) of
               None \<Rightarrow> None
             | Some table \<Rightarrow>
                 Some (mi\<lparr>xfer_alloc_table := table,
                          sem_xfer_count := up (sem_xfer_count mi)\<rparr>)))"

subsection \<open>One exchange\<close>

text \<open>
  The mailbox and the remote side are the environment of an exchange: what
  \<open>mbox_send_message\<close> returns, and the messages the receive interrupt delivers while the
  caller waits on the completion.
\<close>

fun rx_callbacks :: "ti_sci_info \<Rightarrow> ti_msgmgr_message list \<Rightarrow> ti_sci_info option" where
  "rx_callbacks info [] = Some info"
| "rx_callbacks info (m # ms) =
     (case ti_sci_rx_callback info m of
        None \<Rightarrow> None
      | Some (_, info') \<Rightarrow> rx_callbacks info' ms)"

text \<open>\<open>ti_sci_do_xfer\<close> (lines 421 to 452).\<close>

definition ti_sci_do_xfer ::
  "ti_sci_info \<Rightarrow> nat \<Rightarrow> int \<Rightarrow> ti_msgmgr_message list \<Rightarrow> (int \<times> ti_sci_info) option" where
  "ti_sci_do_xfer info xfer_ix mbox_send_message arrivals =
     (let ret = mbox_send_message in
      if ret < 0 then Some (ret, info)
      else
        case rx_callbacks info arrivals of
          None \<Rightarrow> None
        | Some info' \<Rightarrow>
            (case xfer_at (minfo info') xfer_ix of
               None \<Rightarrow> None
             | Some xfer \<Rightarrow>
                 (case wait_for_completion_timeout (xfer_done xfer) of (d, woken) \<Rightarrow>
                    Some (if woken then 0 else - ETIMEDOUT,
                          xfer_store xfer_ix (xfer\<lparr>xfer_done := d\<rparr>) info'))))"

text \<open>
  \<open>strncpy dst src n\<close> for a \<open>dst\<close> of \<open>n\<close> characters: the characters of \<open>src\<close> before
  its first NUL, at most \<open>n\<close>, padded with NUL.
\<close>

definition strncpy :: "u8 list \<Rightarrow> nat \<Rightarrow> u8 list" where
  "strncpy src n =
     (let s = takeWhile (\<lambda>c. c \<noteq> 0) (take n src) in s @ replicate (n - length s) 0)"

text \<open>\<open>ti_sci_cmd_get_revision\<close> (lines 462 to 498).\<close>

definition ti_sci_cmd_get_revision ::
  "ti_sci_info \<Rightarrow> int \<Rightarrow> ti_msgmgr_message list \<Rightarrow> (int \<times> ti_sci_info) option" where
  "ti_sci_cmd_get_revision info mbox_send_message arrivals =
     (case ti_sci_get_one_xfer info TI_SCI_MSG_VERSION 0 sizeof_hdr sizeof_resp_version of
        None \<Rightarrow> None
      | Some (Inl ret, info1) \<Rightarrow> Some (ret, info1)
      | Some (Inr xfer_ix, info1) \<Rightarrow>
          (case ti_sci_do_xfer info1 xfer_ix mbox_send_message arrivals of
             None \<Rightarrow> None
           | Some (ret, info2) \<Rightarrow>
               if ret \<noteq> 0
               then (case ti_sci_put_one_xfer (minfo info2) xfer_ix of
                       None \<Rightarrow> None
                     | Some mi \<Rightarrow> Some (ret, info2\<lparr>minfo := mi\<rparr>))
               else
                 (case xfer_at (minfo info2) xfer_ix of
                    None \<Rightarrow> None
                  | Some xfer \<Rightarrow>
                      if length (xfer_buf xfer) < sizeof_resp_version then None
                      else
                        let rev_info = resp_version (xfer_buf xfer);
                            info3 = info2\<lparr>version :=
                              \<lparr>abi_major = abi_major rev_info,
                               abi_minor = abi_minor rev_info,
                               firmware_revision = firmware_revision rev_info,
                               firmware_description =
                                 strncpy (firmware_description rev_info) 32\<rparr>\<rparr>
                        in (case ti_sci_put_one_xfer (minfo info3) xfer_ix of
                              None \<Rightarrow> None
                            | Some mi \<Rightarrow> Some (ret, info3\<lparr>minfo := mi\<rparr>)))))"

subsection \<open>Probe\<close>

text \<open>
  What the rest of the kernel answers during probe: the match of the device, each
  allocation (true when memory is handed out), the two mailbox channels (\<open>Some e\<close> is
  \<open>ERR_PTR e\<close>), and the environment of the version exchange.
\<close>

record probe_env =
  env_of_match_device :: "ti_sci_desc option"
  env_kzalloc_info :: bool
  env_kcalloc_xfer_block :: bool
  env_kzalloc_xfer_alloc_table :: bool
  env_kcalloc_xfer_buf :: "nat \<Rightarrow> bool"
  env_chan_rx :: "int option"
  env_chan_tx :: "int option"
  env_mbox_send_message :: int
  env_arrivals :: "ti_msgmgr_message list"

text \<open>A slot as \<open>devm_kcalloc\<close> leaves it: all zero, no buffer yet.\<close>

definition zeroed_xfer :: ti_sci_xfer where
  "zeroed_xfer = \<lparr>tx_message_len = 0, rx_len = 0, xfer_buf = [], xfer_done = 0\<rparr>"

definition zeroed_version :: ti_sci_version_info where
  "zeroed_version =
     \<lparr>abi_major = 0, abi_minor = 0, firmware_revision = 0,
      firmware_description = replicate 32 0\<rparr>"

text \<open>
  The loop of lines 696 to 704, from slot \<open>i\<close> on. A negative \<open>max_msg_size\<close> is, as a
  \<open>size_t\<close>, a request of at least \<open>2 ^ 31\<close> bytes, which the allocator does not serve.
\<close>

fun init_xfers ::
  "(nat \<Rightarrow> bool) \<Rightarrow> c_int \<Rightarrow> nat \<Rightarrow> ti_sci_xfer list \<Rightarrow> ti_sci_xfer list option" where
  "init_xfers ok msg_size i [] = Some []"
| "init_xfers ok msg_size i (xfer # xfers) =
     (if sint msg_size < 0 \<or> \<not> ok i then None
      else
        case init_xfers ok msg_size (Suc i) xfers of
          None \<Rightarrow> None
        | Some xfers' \<Rightarrow>
            Some (xfer\<lparr>xfer_buf := replicate (size_t_of_int msg_size) 0,
                       xfer_done := init_completion\<rparr> # xfers'))"

text \<open>
  \<open>ti_sci_probe\<close> (lines 643 to 755): the return value, and the instance when probe
  succeeded (on every failure the device-managed memory goes back). The outer \<open>None\<close> is
  an undefined access in the version exchange. A negative \<open>max_msgs\<close> passes the signed
  comparison of line 676 and is, as the \<open>size_t\<close> count of \<open>devm_kcalloc\<close>, rejected by
  the overflow check of the allocator. \<open>sema_init\<close> is reached with \<open>max_msgs\<close> between 0
  and 255. The debugfs file, whose failure only warns, and the registry list are left out.
\<close>

definition ti_sci_probe :: "probe_env \<Rightarrow> (int \<times> ti_sci_info option) option" where
  "ti_sci_probe env =
     (case env_of_match_device env of
        None \<Rightarrow> Some (- EINVAL, None)
      | Some d \<Rightarrow>
          if \<not> env_kzalloc_info env then Some (- ENOMEM, None)
          else if sint (max_msgs d) \<ge> 2 ^ (8 * sizeof_hdr_seq) then Some (- EINVAL, None)
          else if sint (max_msgs d) < 0 \<or> \<not> env_kcalloc_xfer_block env
          then Some (- ENOMEM, None)
          else if \<not> env_kzalloc_xfer_alloc_table env then Some (- ENOMEM, None)
          else
            (case init_xfers (env_kcalloc_xfer_buf env) (max_msg_size d) 0
                    (replicate (size_t_of_int (max_msgs d)) zeroed_xfer) of
               None \<Rightarrow> Some (- ENOMEM, None)
             | Some block \<Rightarrow>
                 let info =
                   \<lparr>desc = d, version = zeroed_version,
                    minfo =
                      \<lparr>sem_xfer_count = nat (sint (max_msgs d)),
                       xfer_block = block,
                       xfer_alloc_table =
                         replicate
                           (BITS_TO_LONGS (size_t_of_int (max_msgs d)) * BITS_PER_LONG)
                           False\<rparr>\<rparr>
                 in
                 (case env_chan_rx env of
                    Some e \<Rightarrow> Some (e, None)
                  | None \<Rightarrow>
                      (case env_chan_tx env of
                         Some e \<Rightarrow> Some (e, None)
                       | None \<Rightarrow>
                           (case ti_sci_cmd_get_revision info (env_mbox_send_message env)
                                   (env_arrivals env) of
                              None \<Rightarrow> None
                            | Some (ret, info') \<Rightarrow>
                                if ret \<noteq> 0 then Some (ret, None)
                                else Some (0, Some info'))))))"

subsection \<open>Interleavings\<close>

text \<open>
  A run of the driver after probe is a sequence of steps of the caller threads and of the
  receive interrupt: an allocation, the send and wait of a caller on the slot it holds (with
  what the send returns and the messages that arrive during the wait), a release, and the
  arrival of a message while nobody waits.
\<close>

datatype op =
  Get u16 u32 nat nat
| Xfer nat int "ti_msgmgr_message list"
| Put nat
| Arrival ti_msgmgr_message

fun step :: "ti_sci_info \<Rightarrow> op \<Rightarrow> ti_sci_info option" where
  "step info (Get msg_type msg_flags tx rx) =
     map_option snd (ti_sci_get_one_xfer info msg_type msg_flags tx rx)"
| "step info (Xfer xfer_ix mbox_send_message arrivals) =
     map_option snd (ti_sci_do_xfer info xfer_ix mbox_send_message arrivals)"
| "step info (Put xfer_ix) =
     map_option (\<lambda>mi. info\<lparr>minfo := mi\<rparr>) (ti_sci_put_one_xfer (minfo info) xfer_ix)"
| "step info (Arrival m) = map_option snd (ti_sci_rx_callback info m)"

fun run :: "ti_sci_info \<Rightarrow> op list \<Rightarrow> ti_sci_info option" where
  "run info [] = Some info"
| "run info (x # xs) = (case step info x of None \<Rightarrow> None | Some info' \<Rightarrow> run info' xs)"

text \<open>
  The callers' contract (the only caller in the file, \<open>ti_sci_cmd_get_revision\<close>, keeps
  it): a caller sends on, waits on and releases the slot it holds, and releases it once,
  so that slot is allocated at that moment. The mailbox hands over a buffer that holds
  the header and the \<open>len\<close> bytes it announces, with a sequence number that names a bit
  of the table.
\<close>

definition msg_ok :: "ti_sci_info \<Rightarrow> ti_msgmgr_message \<Rightarrow> bool" where
  "msg_ok info m =
     (sizeof_hdr \<le> length (buf m) \<and> len m \<le> length (buf m) \<and>
      unat (hdr_seq (buf m)) < length (xfer_alloc_table (minfo info)))"

fun op_ok :: "ti_sci_info \<Rightarrow> op \<Rightarrow> bool" where
  "op_ok info (Get msg_type msg_flags tx rx) = True"
| "op_ok info (Xfer xfer_ix mbox_send_message arrivals) =
     (test_bit xfer_ix (xfer_alloc_table (minfo info)) = Some True \<and>
      list_all (msg_ok info) arrivals)"
| "op_ok info (Put xfer_ix) = (test_bit xfer_ix (xfer_alloc_table (minfo info)) = Some True)"
| "op_ok info (Arrival m) = msg_ok info m"

fun contract :: "ti_sci_info \<Rightarrow> op list \<Rightarrow> bool" where
  "contract info [] = True"
| "contract info (x # xs) =
     (op_ok info x \<and> (case step info x of None \<Rightarrow> True | Some info' \<Rightarrow> contract info' xs))"

text \<open>
  The state the driver is in after a successful probe in the environment \<open>env\<close> and a run
  \<open>ops\<close> that keeps the contract. In these runs an allocation is one step: every state is
  one in which each allocation that has set its bit has also returned.
\<close>

definition reached :: "probe_env \<Rightarrow> op list \<Rightarrow> ti_sci_info option" where
  "reached env ops =
     (case ti_sci_probe env of
        Some (ret, Some info) \<Rightarrow> if contract info ops then run info ops else None
      | _ \<Rightarrow> None)"

subsection \<open>Allocations in progress\<close>

text \<open>
  The two halves of \<open>ti_sci_get_one_xfer\<close>. \<open>ti_sci_get_one_xfer_take\<close> is lines 334 to
  355: the size guard, the semaphore, and the search and setting of the bit under
  \<open>xfer_lock\<close>; its result is the error or the local \<open>bit_pos\<close>.
  \<open>ti_sci_get_one_xfer_fill\<close> is lines 364 to 379, after the unlock: the lengths, the
  completion and the header of the slot. Between the two the bit is set and the slot
  still has what its last use, or the allocator, left in it.
\<close>

definition ti_sci_get_one_xfer_take ::
  "ti_sci_info \<Rightarrow> nat \<Rightarrow> nat \<Rightarrow> ((int + nat) \<times> ti_sci_info) option" where
  "ti_sci_get_one_xfer_take info tx_message_size rx_message_size =
     (if rx_message_size > size_t_of_int (max_msg_size (desc info)) \<or>
         tx_message_size > size_t_of_int (max_msg_size (desc info)) \<or>
         rx_message_size < sizeof_hdr \<or> rx_message_size < sizeof_hdr
      then Some (Inl (- ERANGE), info)
      else
        case down_timeout (sem_xfer_count (minfo info)) of (ret, sem) \<Rightarrow>
        if ret < 0 then Some (Inl ret, info\<lparr>minfo := (minfo info)\<lparr>sem_xfer_count := sem\<rparr>\<rparr>)
        else
          (case find_first_zero_bit (xfer_alloc_table (minfo info))
                  (size_t_of_int (max_msgs (desc info))) of
             None \<Rightarrow> None
           | Some bit_pos \<Rightarrow>
               (case set_bit_bitmap bit_pos (xfer_alloc_table (minfo info)) of
                  None \<Rightarrow> None
                | Some table \<Rightarrow>
                    Some (Inr bit_pos,
                          info\<lparr>minfo := (minfo info)\<lparr>sem_xfer_count := sem,
                                                      xfer_alloc_table := table\<rparr>\<rparr>))))"

definition ti_sci_get_one_xfer_fill ::
  "ti_sci_info \<Rightarrow> nat \<Rightarrow> u16 \<Rightarrow> u32 \<Rightarrow> nat \<Rightarrow> nat \<Rightarrow> (nat \<times> ti_sci_info) option" where
  "ti_sci_get_one_xfer_fill info bit_pos msg_type msg_flags tx_message_size rx_message_size =
     (let xfer_id = bit_pos mod 256 in
      case xfer_at (minfo info) xfer_id of
        None \<Rightarrow> None
      | Some xfer \<Rightarrow>
          if length (xfer_buf xfer) < sizeof_hdr then None
          else
            Some (xfer_id,
              xfer_store xfer_id
                (xfer\<lparr>tx_message_len := tx_message_size,
                       rx_len := rx_message_size mod 256,
                       xfer_done := reinit_completion (xfer_done xfer),
                       xfer_buf :=
                         hdr_set_flags msg_flags
                           (hdr_set_host (host_id (desc info))
                             (hdr_set_type msg_type
                               (hdr_set_seq (of_nat xfer_id) (xfer_buf xfer))))\<rparr>)
                info))"

text \<open>
  The copy of the version reply into the handle (lines 481 and 489 to 493 of
  \<open>ti_sci_cmd_get_revision\<close>), and the instance as probe has built it when the semaphore
  is initialised (lines 655 to 719), before the mailbox channels are requested and the
  first message can arrive.
\<close>

definition copy_version :: "ti_sci_info \<Rightarrow> nat \<Rightarrow> ti_sci_info option" where
  "copy_version info xfer_ix =
     (case xfer_at (minfo info) xfer_ix of
        None \<Rightarrow> None
      | Some xfer \<Rightarrow>
          if length (xfer_buf xfer) < sizeof_resp_version then None
          else
            let rev_info = resp_version (xfer_buf xfer) in
            Some (info\<lparr>version :=
                    \<lparr>abi_major = abi_major rev_info,
                     abi_minor = abi_minor rev_info,
                     firmware_revision = firmware_revision rev_info,
                     firmware_description = strncpy (firmware_description rev_info) 32\<rparr>\<rparr>))"

definition ti_sci_probe_pool :: "probe_env \<Rightarrow> int + ti_sci_info" where
  "ti_sci_probe_pool env =
     (case env_of_match_device env of
        None \<Rightarrow> Inl (- EINVAL)
      | Some d \<Rightarrow>
          if \<not> env_kzalloc_info env then Inl (- ENOMEM)
          else if sint (max_msgs d) \<ge> 2 ^ (8 * sizeof_hdr_seq) then Inl (- EINVAL)
          else if sint (max_msgs d) < 0 \<or> \<not> env_kcalloc_xfer_block env then Inl (- ENOMEM)
          else if \<not> env_kzalloc_xfer_alloc_table env then Inl (- ENOMEM)
          else
            (case init_xfers (env_kcalloc_xfer_buf env) (max_msg_size d) 0
                    (replicate (size_t_of_int (max_msgs d)) zeroed_xfer) of
               None \<Rightarrow> Inl (- ENOMEM)
             | Some block \<Rightarrow>
                 Inr \<lparr>desc = d, version = zeroed_version,
                      minfo =
                        \<lparr>sem_xfer_count = nat (sint (max_msgs d)),
                         xfer_block = block,
                         xfer_alloc_table =
                           replicate
                             (BITS_TO_LONGS (size_t_of_int (max_msgs d)) * BITS_PER_LONG)
                             False\<rparr>\<rparr>))"

text \<open>
  A caller inside \<open>ti_sci_get_one_xfer\<close>, past the unlock: its bit position and its
  arguments. A state of the finer runs is the instance together with these callers.
\<close>

record get_call =
  call_bit_pos :: nat
  call_msg_type :: u16
  call_msg_flags :: u32
  call_tx_message_size :: nat
  call_rx_message_size :: nat

text \<open>
  The finer runs start when probe has built the pool, so probe's own version exchange is
  part of them. Their steps: the first half of an allocation, the second half of the
  allocation that took the bit \<open>bit_pos\<close>, the send and wait of a caller, the copy of the
  version reply, a release, and the arrival of a message.
\<close>

datatype fine_op =
  Take u16 u32 nat nat
| Fill nat
| Exchange nat int "ti_msgmgr_message list"
| Read_version nat
| Release nat
| Deliver ti_msgmgr_message

definition pending :: "get_call list \<Rightarrow> nat list" where
  "pending calls = map call_bit_pos calls"

fun fine_step :: "ti_sci_info \<times> get_call list \<Rightarrow> fine_op \<Rightarrow> (ti_sci_info \<times> get_call list) option" where
  "fine_step (info, calls) (Take msg_type msg_flags tx rx) =
     (case ti_sci_get_one_xfer_take info tx rx of
        None \<Rightarrow> None
      | Some (Inl ret, info') \<Rightarrow> Some (info', calls)
      | Some (Inr bit_pos, info') \<Rightarrow>
          Some (info',
                \<lparr>call_bit_pos = bit_pos, call_msg_type = msg_type, call_msg_flags = msg_flags,
                 call_tx_message_size = tx, call_rx_message_size = rx\<rparr> # calls))"
| "fine_step (info, calls) (Fill bit_pos) =
     (case find (\<lambda>c. call_bit_pos c = bit_pos) calls of
        None \<Rightarrow> Some (info, calls)
      | Some c \<Rightarrow>
          (case ti_sci_get_one_xfer_fill info bit_pos (call_msg_type c) (call_msg_flags c)
                  (call_tx_message_size c) (call_rx_message_size c) of
             None \<Rightarrow> None
           | Some (xfer_id, info') \<Rightarrow>
               Some (info', filter (\<lambda>c. call_bit_pos c \<noteq> bit_pos) calls)))"
| "fine_step (info, calls) (Exchange xfer_ix mbox_send_message arrivals) =
     map_option (\<lambda>r. (snd r, calls)) (ti_sci_do_xfer info xfer_ix mbox_send_message arrivals)"
| "fine_step (info, calls) (Read_version xfer_ix) =
     map_option (\<lambda>info'. (info', calls)) (copy_version info xfer_ix)"
| "fine_step (info, calls) (Release xfer_ix) =
     map_option (\<lambda>mi. (info\<lparr>minfo := mi\<rparr>, calls)) (ti_sci_put_one_xfer (minfo info) xfer_ix)"
| "fine_step (info, calls) (Deliver m) =
     map_option (\<lambda>r. (snd r, calls)) (ti_sci_rx_callback info m)"

fun fine_run :: "ti_sci_info \<times> get_call list \<Rightarrow> fine_op list \<Rightarrow> (ti_sci_info \<times> get_call list) option" where
  "fine_run s [] = Some s"
| "fine_run s (x # xs) = (case fine_step s x of None \<Rightarrow> None | Some s' \<Rightarrow> fine_run s' xs)"

text \<open>
  The contract of the finer runs: a caller holds a slot when its bit is set and its
  allocation has returned, and it exchanges on, reads and releases a slot it holds; the
  second half of an allocation belongs to a caller that is past the first; a version reply
  is read from a buffer that can hold one; the mailbox hands over buffers as before.
\<close>

definition holds :: "ti_sci_info \<times> get_call list \<Rightarrow> nat \<Rightarrow> bool" where
  "holds s xfer_ix =
     (test_bit xfer_ix (xfer_alloc_table (minfo (fst s))) = Some True \<and>
      xfer_ix \<notin> set (pending (snd s)))"

fun fine_op_ok :: "ti_sci_info \<times> get_call list \<Rightarrow> fine_op \<Rightarrow> bool" where
  "fine_op_ok s (Take msg_type msg_flags tx rx) = True"
| "fine_op_ok s (Fill bit_pos) = (bit_pos \<in> set (pending (snd s)))"
| "fine_op_ok s (Exchange xfer_ix mbox_send_message arrivals) =
     (holds s xfer_ix \<and> list_all (msg_ok (fst s)) arrivals)"
| "fine_op_ok s (Read_version xfer_ix) =
     (holds s xfer_ix \<and> sizeof_resp_version \<le> size_t_of_int (max_msg_size (desc (fst s))))"
| "fine_op_ok s (Release xfer_ix) = holds s xfer_ix"
| "fine_op_ok s (Deliver m) = msg_ok (fst s) m"

fun fine_contract :: "ti_sci_info \<times> get_call list \<Rightarrow> fine_op list \<Rightarrow> bool" where
  "fine_contract s [] = True"
| "fine_contract s (x # xs) =
     (fine_op_ok s x \<and>
      (case fine_step s x of None \<Rightarrow> True | Some s' \<Rightarrow> fine_contract s' xs))"

definition fine_reached :: "probe_env \<Rightarrow> fine_op list \<Rightarrow> (ti_sci_info \<times> get_call list) option" where
  "fine_reached env ops =
     (case ti_sci_probe_pool env of
        Inl ret \<Rightarrow> None
      | Inr info \<Rightarrow> if fine_contract (info, []) ops then fine_run (info, []) ops else None)"

subsection \<open>The invariant of the slot pool\<close>

text \<open>
  What probe establishes and every step keeps: the pool has \<open>max_msgs\<close> slots, fewer than
  256, and when it has any, \<open>max_msg_size\<close> is not negative; the table covers them and
  no bit beyond them is set; the semaphore count and the number of set bits add up to
  \<open>max_msgs\<close>; every slot has a buffer of \<open>max_msg_size\<close> bytes that holds its expected
  reply; and the header of an allocated slot carries the slot's own index as sequence
  number and, where \<open>max_msg_size\<close> fits the \<open>u8\<close> that \<open>rx_len\<close> is, its expected reply
  is at least a header long. \<open>got\<close> is the state an allocation leaves when it takes slot
  \<open>i\<close>.
\<close>

definition slot_inv :: "ti_sci_desc \<Rightarrow> bitmap \<Rightarrow> nat \<Rightarrow> ti_sci_xfer \<Rightarrow> bool" where
  "slot_inv d table i xfer =
     (length (xfer_buf xfer) = size_t_of_int (max_msg_size d) \<and>
      rx_len xfer \<le> length (xfer_buf xfer) \<and>
      (table ! i \<longrightarrow>
         sizeof_hdr \<le> length (xfer_buf xfer) \<and> unat (hdr_seq (xfer_buf xfer)) = i \<and>
         (size_t_of_int (max_msg_size d) < 256 \<longrightarrow> sizeof_hdr \<le> rx_len xfer)))"

definition ti_sci_inv :: "ti_sci_info \<Rightarrow> bool" where
  "ti_sci_inv info =
     (let d = desc info; mi = minfo info; n = nat (sint (max_msgs d)) in
      0 \<le> sint (max_msgs d) \<and> sint (max_msgs d) < 256 \<and>
      (0 < n \<longrightarrow> 0 \<le> sint (max_msg_size d)) \<and>
      length (xfer_block mi) = n \<and>
      n \<le> length (xfer_alloc_table mi) \<and>
      list_all Not (drop n (xfer_alloc_table mi)) \<and>
      sem_xfer_count mi + bitmap_weight (xfer_alloc_table mi) = n \<and>
      list_all (\<lambda>i. slot_inv d (xfer_alloc_table mi) i (xfer_block mi ! i)) [0..<n])"

definition got :: "ti_sci_info \<Rightarrow> u16 \<Rightarrow> u32 \<Rightarrow> nat \<Rightarrow> nat \<Rightarrow> nat \<Rightarrow> ti_sci_info" where
  "got info msg_type msg_flags tx rx i =
     xfer_store i
       ((xfer_block (minfo info) ! i)
          \<lparr>tx_message_len := tx, rx_len := rx mod 256, xfer_done := 0,
           xfer_buf := hdr_set_flags msg_flags (hdr_set_host (host_id (desc info))
             (hdr_set_type msg_type (hdr_set_seq (of_nat i) (xfer_buf (xfer_block (minfo info) ! i)))))\<rparr>)
       (info\<lparr>minfo := (minfo info)\<lparr>sem_xfer_count := sem_xfer_count (minfo info) - 1,
           xfer_alloc_table := (xfer_alloc_table (minfo info))[i := True]\<rparr>\<rparr>)"

text \<open>
  The invariant of the finer runs: the same, except that a slot whose allocation is in
  progress has its bit set and need not carry its index or a reply length yet, and that
  each caller in progress has passed the size guard.
\<close>

definition slot_ok :: "ti_sci_desc \<Rightarrow> bool \<Rightarrow> nat \<Rightarrow> ti_sci_xfer \<Rightarrow> bool" where
  "slot_ok d held i xfer =
     (length (xfer_buf xfer) = size_t_of_int (max_msg_size d) \<and>
      rx_len xfer \<le> length (xfer_buf xfer) \<and>
      (held \<longrightarrow>
         sizeof_hdr \<le> length (xfer_buf xfer) \<and> unat (hdr_seq (xfer_buf xfer)) = i \<and>
         (size_t_of_int (max_msg_size d) < 256 \<longrightarrow> sizeof_hdr \<le> rx_len xfer)))"

definition call_ok :: "ti_sci_info \<Rightarrow> get_call \<Rightarrow> bool" where
  "call_ok info c =
     (call_bit_pos c < nat (sint (max_msgs (desc info))) \<and>
      xfer_alloc_table (minfo info) ! call_bit_pos c \<and>
      sizeof_hdr \<le> call_rx_message_size c \<and>
      call_rx_message_size c \<le> size_t_of_int (max_msg_size (desc info)))"

definition fine_inv :: "ti_sci_info \<times> get_call list \<Rightarrow> bool" where
  "fine_inv s =
     (let info = fst s; d = desc info; mi = minfo info; n = nat (sint (max_msgs d)) in
      0 \<le> sint (max_msgs d) \<and> sint (max_msgs d) < 256 \<and>
      (0 < n \<longrightarrow> 0 \<le> sint (max_msg_size d)) \<and>
      length (xfer_block mi) = n \<and>
      n \<le> length (xfer_alloc_table mi) \<and>
      list_all Not (drop n (xfer_alloc_table mi)) \<and>
      sem_xfer_count mi + bitmap_weight (xfer_alloc_table mi) = n \<and>
      list_all (\<lambda>i. slot_ok d (xfer_alloc_table mi ! i \<and> i \<notin> set (pending (snd s))) i
                       (xfer_block mi ! i)) [0..<n] \<and>
      list_all (call_ok info) (snd s))"

subsection \<open>Concrete instances\<close>

text \<open>
  The description of K2G (lines 630 to 635), a version reply of the firmware as the
  mailbox delivers it (44 bytes in a buffer of 64, sequence number 0), and an environment
  in which every allocation and both channel requests succeed, the send is accepted and
  that reply arrives. \<open>k2g_info\<close> is the instance probe returns there, \<open>k2g_held\<close> the
  same instance after one caller has taken a slot for a version exchange, \<open>k2g_put_once\<close>
  and \<open>k2g_put_twice\<close> its transfer information after that slot is released once and
  twice, and \<open>k2g_ops\<close> a run of two callers.
\<close>

definition ti_sci_pmmc_k2g_desc :: ti_sci_desc where
  "ti_sci_pmmc_k2g_desc =
     \<lparr>host_id = 2, max_rx_timeout_ms = 200, max_msgs = 128, max_msg_size = 64\<rparr>"

definition version_reply :: ti_msgmgr_message where
  "version_reply =
     \<lparr>len = 44,
      buf = [2, 0, 2, 0, 0, 0, 0, 0] @ replicate 32 65 @ [1, 0, 3, 4] @ replicate 20 0\<rparr>"

definition k2g_env :: probe_env where
  "k2g_env =
     \<lparr>env_of_match_device = Some ti_sci_pmmc_k2g_desc, env_kzalloc_info = True,
      env_kcalloc_xfer_block = True, env_kzalloc_xfer_alloc_table = True,
      env_kcalloc_xfer_buf = (\<lambda>_. True), env_chan_rx = None, env_chan_tx = None,
      env_mbox_send_message = 0, env_arrivals = [version_reply]\<rparr>"

definition k2g_info :: ti_sci_info where
  "k2g_info = the (snd (the (ti_sci_probe k2g_env)))"

definition k2g_held :: ti_sci_info where
  "k2g_held = the (run k2g_info [Get TI_SCI_MSG_VERSION 0 8 44])"

definition k2g_put_once :: ti_sci_xfers_info where
  "k2g_put_once = the (ti_sci_put_one_xfer (minfo k2g_held) 0)"

definition k2g_put_twice :: ti_sci_xfers_info where
  "k2g_put_twice = the (ti_sci_put_one_xfer k2g_put_once 0)"

definition k2g_ops :: "op list" where
  "k2g_ops =
     [Get TI_SCI_MSG_VERSION 0 8 44, Get TI_SCI_MSG_VERSION 0 8 44, Arrival version_reply,
      Xfer 1 0 [], Put 0, Put 1, Get TI_SCI_MSG_VERSION 0 8 44]"

text \<open>
  A message that announces no bytes at all, in a buffer of 64 bytes whose fourth byte
  (where a header has its sequence number) is \<open>seq\<close>.
\<close>

definition short_message :: "u8 \<Rightarrow> ti_msgmgr_message" where
  "short_message seq = \<lparr>len = 0, buf = [0, 0, 0, seq] @ replicate 60 0\<rparr>"

text \<open>
  A description with two slots and messages of up to 512 bytes, in the same environment:
  \<open>wide_held\<close> is the instance after a caller has taken a slot for a reply of 256 bytes,
  \<open>wide_done\<close> the instance after the message of no bytes has then arrived. Last, a
  description with 256 slots.
\<close>

definition wide_env :: probe_env where
  "wide_env =
     k2g_env\<lparr>env_of_match_device :=
       Some \<lparr>host_id = 2, max_rx_timeout_ms = 200, max_msgs = 2, max_msg_size = 512\<rparr>\<rparr>"

definition wide_held :: ti_sci_info where
  "wide_held = the (reached wide_env [Get TI_SCI_MSG_VERSION 0 8 256])"

definition wide_done :: ti_sci_info where
  "wide_done =
     the (reached wide_env [Get TI_SCI_MSG_VERSION 0 8 256, Arrival (short_message 0)])"

definition many_env :: probe_env where
  "many_env =
     k2g_env\<lparr>env_of_match_device :=
       Some \<lparr>host_id = 2, max_rx_timeout_ms = 200, max_msgs = 256, max_msg_size = 64\<rparr>\<rparr>"

text \<open>
  The steps of probe's version exchange in the K2G environment, the caller of its
  allocation, the instance while that allocation is in progress (bit 0 set, slot 0 never
  filled), and the same instance after the message of no bytes has arrived there.
\<close>

definition probe_ops :: "fine_op list" where
  "probe_ops =
     [Take TI_SCI_MSG_VERSION 0 8 44, Fill 0, Exchange 0 0 [version_reply], Read_version 0,
      Release 0]"

definition k2g_probe_call :: get_call where
  "k2g_probe_call =
     \<lparr>call_bit_pos = 0, call_msg_type = TI_SCI_MSG_VERSION, call_msg_flags = 0,
      call_tx_message_size = 8, call_rx_message_size = 44\<rparr>"

definition k2g_taking :: ti_sci_info where
  "k2g_taking = fst (the (fine_reached k2g_env [Take TI_SCI_MSG_VERSION 0 8 44]))"

definition k2g_taking_done :: ti_sci_info where
  "k2g_taking_done =
     fst (the (fine_reached k2g_env [Take TI_SCI_MSG_VERSION 0 8 44, Deliver (short_message 0)]))"

section \<open>Properties\<close>

subsection \<open>Bitmaps and headers\<close>

lemma first_zero_le: "first_zero bs \<le> length bs"
  by (induction bs) auto

lemma first_zero_clear: "first_zero bs < length bs \<Longrightarrow> \<not> bs ! first_zero bs"
  by (induction bs) auto

lemma first_zero_least: "i < first_zero bs \<Longrightarrow> bs ! i"
proof (induction bs arbitrary: i)
  case Nil
  then show ?case by simp
next
  case (Cons b bs)
  then show ?case by (cases i) (auto split: if_splits)
qed

lemma bitmap_weight_le: "bitmap_weight bs \<le> length bs"
  by (simp add: bitmap_weight_def)

lemma first_zero_full: "first_zero bs = length bs \<Longrightarrow> bitmap_weight bs = length bs"
  by (induction bs) (auto simp: bitmap_weight_def split: if_splits)

lemma first_zero_found: "bitmap_weight bs < length bs \<Longrightarrow> first_zero bs < length bs"
  using first_zero_full [of bs] first_zero_le [of bs] by linarith

lemma bitmap_weight_set:
  "i < length bs \<Longrightarrow> \<not> bs ! i \<Longrightarrow> bitmap_weight (bs[i := True]) = Suc (bitmap_weight bs)"
proof (induction bs arbitrary: i)
  case Nil
  then show ?case by simp
next
  case (Cons b bs)
  then show ?case by (cases i) (auto simp: bitmap_weight_def)
qed

lemma bitmap_weight_clear:
  "i < length bs \<Longrightarrow> bs ! i \<Longrightarrow> Suc (bitmap_weight (bs[i := False])) = bitmap_weight bs"
proof (induction bs arbitrary: i)
  case Nil
  then show ?case by simp
next
  case (Cons b bs)
  then show ?case by (cases i) (auto simp: bitmap_weight_def)
qed

lemma bitmap_weight_append: "bitmap_weight (as @ bs) = bitmap_weight as + bitmap_weight bs"
  by (simp add: bitmap_weight_def)

lemma bitmap_weight_all_clear: "list_all Not bs \<Longrightarrow> bitmap_weight bs = 0"
  by (induction bs) (auto simp: bitmap_weight_def)

lemma bitmap_weight_take:
  "list_all Not (drop n bs) \<Longrightarrow> bitmap_weight (take n bs) = bitmap_weight bs"
  using bitmap_weight_append [of "take n bs" "drop n bs"] bitmap_weight_all_clear [of "drop n bs"]
  by simp

lemma size_t_of_int_nat: "0 \<le> sint v \<Longrightarrow> size_t_of_int v = nat (sint v)"
  using sint_lt [of v] by (simp add: size_t_of_int_def BITS_PER_LONG_def)

lemma hdr_seq_stamp:
  "sizeof_hdr \<le> length b \<Longrightarrow>
   hdr_seq (hdr_set_flags fl (hdr_set_host h (hdr_set_type ty (hdr_set_seq s b)))) = s"
  by (simp add: hdr_seq_def hdr_set_flags_def hdr_set_host_def hdr_set_type_def hdr_set_seq_def
      sizeof_hdr_def)

lemma length_hdr_set [simp]:
  "length (hdr_set_flags fl b) = length b" "length (hdr_set_host h b) = length b"
  "length (hdr_set_type ty b) = length b" "length (hdr_set_seq s b) = length b"
  by (simp_all add: hdr_set_flags_def hdr_set_host_def hdr_set_type_def hdr_set_seq_def)

lemma ti_sci_inv_iff:
  "ti_sci_inv info \<longleftrightarrow>
     (0 \<le> sint (max_msgs (desc info)) \<and> sint (max_msgs (desc info)) < 256 \<and>
      (0 < sint (max_msgs (desc info)) \<longrightarrow> 0 \<le> sint (max_msg_size (desc info))) \<and>
      length (xfer_block (minfo info)) = nat (sint (max_msgs (desc info))) \<and>
      nat (sint (max_msgs (desc info))) \<le> length (xfer_alloc_table (minfo info)) \<and>
      (\<forall>i. nat (sint (max_msgs (desc info))) \<le> i \<longrightarrow> i < length (xfer_alloc_table (minfo info)) \<longrightarrow>
           \<not> xfer_alloc_table (minfo info) ! i) \<and>
      sem_xfer_count (minfo info) + bitmap_weight (xfer_alloc_table (minfo info)) =
        nat (sint (max_msgs (desc info))) \<and>
      (\<forall>i < nat (sint (max_msgs (desc info))).
         slot_inv (desc info) (xfer_alloc_table (minfo info)) i (xfer_block (minfo info) ! i)))"
proof -
  have "list_all Not (drop n t) \<longleftrightarrow> (\<forall>i. n \<le> i \<longrightarrow> i < length t \<longrightarrow> \<not> t ! i)" for n and t :: bitmap
  proof
    assume a: "list_all Not (drop n t)"
    show "\<forall>i. n \<le> i \<longrightarrow> i < length t \<longrightarrow> \<not> t ! i"
    proof (intro allI impI)
      fix i assume "n \<le> i" "i < length t"
      then have "drop n t ! (i - n) = t ! i" "i - n < length (drop n t)" by auto
      with a show "\<not> t ! i" by (metis list_all_length)
    qed
  next
    assume a: "\<forall>i. n \<le> i \<longrightarrow> i < length t \<longrightarrow> \<not> t ! i"
    show "list_all Not (drop n t)"
      unfolding list_all_length
    proof (intro allI impI)
      fix k assume "k < length (drop n t)"
      then have "n + k < length t" by simp
      with a have "\<not> t ! (n + k)" by simp
      then show "\<not> drop n t ! k" using \<open>n + k < length t\<close> by simp
    qed
  qed
  then show ?thesis
    by (auto simp add: ti_sci_inv_def Let_def list_all_iff)
qed

lemma find_first_zero_bit_found:
  "first_zero (take sz addr) < length (take sz addr) \<Longrightarrow>
   find_first_zero_bit addr sz = Some (first_zero (take sz addr))"
  unfolding find_first_zero_bit_def Let_def by (rule if_P)

lemma inv_free_slot:
  assumes "ti_sci_inv info" "0 < sem_xfer_count (minfo info)"
  shows "first_zero (take (nat (sint (max_msgs (desc info)))) (xfer_alloc_table (minfo info)))
           < nat (sint (max_msgs (desc info)))"
proof -
  let ?n = "nat (sint (max_msgs (desc info)))" and ?t = "xfer_alloc_table (minfo info)"
  from assms(1) have n: "?n \<le> length ?t" and clr: "list_all Not (drop ?n ?t)"
    and sum: "sem_xfer_count (minfo info) + bitmap_weight ?t = ?n"
    by (simp_all add: ti_sci_inv_def Let_def)
  have "bitmap_weight (take ?n ?t) = bitmap_weight ?t" using clr by (rule bitmap_weight_take)
  with sum assms(2) have "bitmap_weight (take ?n ?t) < length (take ?n ?t)" using n by simp
  then have "first_zero (take ?n ?t) < length (take ?n ?t)" by (rule first_zero_found)
  then show ?thesis using n by simp
qed

lemma get_one_xfer_success:
  assumes inv: "ti_sci_inv info"
    and rx: "sizeof_hdr \<le> rx" "rx \<le> size_t_of_int (max_msg_size (desc info))"
    and tx: "tx \<le> size_t_of_int (max_msg_size (desc info))"
    and sem: "0 < sem_xfer_count (minfo info)"
  shows "ti_sci_get_one_xfer info msg_type msg_flags tx rx =
           Some (Inr (first_zero (take (nat (sint (max_msgs (desc info)))) (xfer_alloc_table (minfo info)))),
                 got info msg_type msg_flags tx rx
                   (first_zero (take (nat (sint (max_msgs (desc info)))) (xfer_alloc_table (minfo info)))))"
proof -
  let ?n = "nat (sint (max_msgs (desc info)))" and ?t = "xfer_alloc_table (minfo info)"
  let ?i = "first_zero (take ?n ?t)"
  have i: "?i < ?n" using inv sem by (rule inv_free_slot)
  from inv have n: "0 \<le> sint (max_msgs (desc info))" "sint (max_msgs (desc info)) < 256"
    "length (xfer_block (minfo info)) = ?n" "?n \<le> length ?t"
    and slot: "slot_inv (desc info) ?t ?i (xfer_block (minfo info) ! ?i)"
    using i by (simp_all add: ti_sci_inv_iff)
  have sz: "size_t_of_int (max_msgs (desc info)) = ?n"
    using n by (simp add: size_t_of_int_nat)
  have "length (take ?n ?t) = ?n" using n by simp
  with i have ffz: "find_first_zero_bit ?t ?n = Some ?i"
    by (intro find_first_zero_bit_found) (simp only:)
  have imod: "?i mod 256 = ?i" using i n by simp
  have len: "sizeof_hdr \<le> length (xfer_buf (xfer_block (minfo info) ! ?i))"
    using slot rx by (simp add: slot_inv_def)
  show ?thesis
    using rx tx sem i n ffz imod len
    by (simp add: ti_sci_get_one_xfer_def down_timeout_def sz set_bit_bitmap_def xfer_at_def
        got_def reinit_completion_def ETIME_def Let_def)
qed

subsection \<open>An allocation keeps the invariant\<close>

lemma inv_got:
  assumes inv: "ti_sci_inv info"
    and rx: "sizeof_hdr \<le> rx" "rx \<le> size_t_of_int (max_msg_size (desc info))"
    and i: "i < nat (sint (max_msgs (desc info)))" "\<not> xfer_alloc_table (minfo info) ! i"
  shows "ti_sci_inv (got info msg_type msg_flags tx rx i)"
proof -
  let ?n = "nat (sint (max_msgs (desc info)))" and ?t = "xfer_alloc_table (minfo info)"
  let ?g = "got info msg_type msg_flags tx rx i"
  from inv have n: "0 \<le> sint (max_msgs (desc info))" "sint (max_msgs (desc info)) < 256"
    "length (xfer_block (minfo info)) = ?n" "?n \<le> length ?t"
    and clr: "\<forall>j. ?n \<le> j \<longrightarrow> j < length ?t \<longrightarrow> \<not> ?t ! j"
    and sum: "sem_xfer_count (minfo info) + bitmap_weight ?t = ?n"
    and slots: "\<forall>j < ?n. slot_inv (desc info) ?t j (xfer_block (minfo info) ! j)"
    and pos: "0 < sint (max_msgs (desc info)) \<longrightarrow> 0 \<le> sint (max_msg_size (desc info))"
    by (simp_all add: ti_sci_inv_iff)
  have w: "bitmap_weight (?t[i := True]) = Suc (bitmap_weight ?t)"
    using i n by (intro bitmap_weight_set) simp_all
  have "bitmap_weight ?t < ?n"
    using w bitmap_weight_take [of ?n "?t[i := True]"] bitmap_weight_le [of "take ?n (?t[i := True])"]
      clr i n by (simp add: list_all_length)
  with sum have sem: "0 < sem_xfer_count (minfo info)" by simp
  have g: "desc ?g = desc info" "xfer_alloc_table (minfo ?g) = ?t[i := True]"
    "sem_xfer_count (minfo ?g) = sem_xfer_count (minfo info) - 1"
    "length (xfer_block (minfo ?g)) = ?n"
    using n by (simp_all add: got_def xfer_store_def)
  have iw: "unat (word_of_nat i :: u8) = i"
    using i n by (simp add: unat_of_nat)
  have slot: "slot_inv (desc info) (?t[i := True]) j (xfer_block (minfo ?g) ! j)" if "j < ?n" for j
  proof (cases "j = i")
    case True
    from slots i have "slot_inv (desc info) ?t i (xfer_block (minfo info) ! i)" by simp
    then have l: "length (xfer_buf (xfer_block (minfo info) ! i)) = size_t_of_int (max_msg_size (desc info))"
      by (simp add: slot_inv_def)
    have "rx mod 256 \<le> rx" by simp
    moreover have "sizeof_hdr \<le> rx mod 256" if "size_t_of_int (max_msg_size (desc info)) < 256"
      using that rx by simp
    ultimately show ?thesis
      using True i n l rx iw
      by (simp add: got_def xfer_store_def slot_inv_def hdr_seq_stamp)
  next
    case False
    from slots that have "slot_inv (desc info) ?t j (xfer_block (minfo info) ! j)" by simp
    then show ?thesis
      using False that n by (auto simp add: got_def xfer_store_def slot_inv_def)
  qed
  show ?thesis
    unfolding ti_sci_inv_iff g
    using n clr sum sem w slot i pos by (auto simp: nth_list_update)
qed

lemma get_one_xfer_cases:
  assumes inv: "ti_sci_inv info"
  shows "ti_sci_get_one_xfer info msg_type msg_flags tx rx =
    (if rx > size_t_of_int (max_msg_size (desc info)) \<or>
        tx > size_t_of_int (max_msg_size (desc info)) \<or> rx < sizeof_hdr
     then Some (Inl (- ERANGE), info)
     else if sem_xfer_count (minfo info) = 0 then Some (Inl (- ETIME), info)
     else Some (Inr (first_zero (take (nat (sint (max_msgs (desc info)))) (xfer_alloc_table (minfo info)))),
                got info msg_type msg_flags tx rx
                  (first_zero (take (nat (sint (max_msgs (desc info)))) (xfer_alloc_table (minfo info))))))"
proof -
  consider (range) "rx > size_t_of_int (max_msg_size (desc info)) \<or>
        tx > size_t_of_int (max_msg_size (desc info)) \<or> rx < sizeof_hdr"
    | (busy) "\<not> (rx > size_t_of_int (max_msg_size (desc info)) \<or>
        tx > size_t_of_int (max_msg_size (desc info)) \<or> rx < sizeof_hdr)"
        "sem_xfer_count (minfo info) = 0"
    | (ok) "sizeof_hdr \<le> rx" "rx \<le> size_t_of_int (max_msg_size (desc info))"
        "tx \<le> size_t_of_int (max_msg_size (desc info))" "0 < sem_xfer_count (minfo info)"
    by fastforce
  then show ?thesis
  proof cases
    case range
    then show ?thesis by (auto simp add: ti_sci_get_one_xfer_def)
  next
    case busy
    then show ?thesis
      by (simp add: ti_sci_get_one_xfer_def down_timeout_def ETIME_def)
  next
    case ok
    then show ?thesis
      using get_one_xfer_success [OF inv ok(1,2,3,4)] by simp
  qed
qed

lemma get_one_xfer_inv:
  assumes inv: "ti_sci_inv info"
  shows "\<exists>r info'. ti_sci_get_one_xfer info msg_type msg_flags tx rx = Some (r, info') \<and>
           ti_sci_inv info'"
proof -
  let ?n = "nat (sint (max_msgs (desc info)))" and ?t = "xfer_alloc_table (minfo info)"
  let ?i = "first_zero (take ?n ?t)"
  show ?thesis
  proof (cases "sizeof_hdr \<le> rx \<and> rx \<le> size_t_of_int (max_msg_size (desc info)) \<and>
        tx \<le> size_t_of_int (max_msg_size (desc info)) \<and> 0 < sem_xfer_count (minfo info)")
    case True
    then have i: "?i < ?n" using inv_free_slot [OF inv] by simp
    from inv have "?n \<le> length ?t" by (simp add: ti_sci_inv_iff)
    with i have "?i < length (take ?n ?t)" by simp
    then have "\<not> take ?n ?t ! ?i" by (rule first_zero_clear)
    with i have "\<not> ?t ! ?i" by simp
    then have "ti_sci_inv (got info msg_type msg_flags tx rx ?i)"
      using inv_got [OF inv _ _ i] True by simp
    then show ?thesis
      using True by (simp add: get_one_xfer_cases [OF inv])
  next
    case False
    then show ?thesis
      using inv by (auto simp add: get_one_xfer_cases [OF inv])
  qed
qed

subsection \<open>Release and arrival keep the invariant\<close>

lemma inv_allocated:
  assumes inv: "ti_sci_inv info"
    and bit: "test_bit i (xfer_alloc_table (minfo info)) = Some True"
  shows "i < nat (sint (max_msgs (desc info)))" "i < length (xfer_block (minfo info))"
    "i < length (xfer_alloc_table (minfo info))" "xfer_alloc_table (minfo info) ! i"
    "sizeof_hdr \<le> length (xfer_buf (xfer_block (minfo info) ! i))"
    "unat (hdr_seq (xfer_buf (xfer_block (minfo info) ! i))) = i"
    "rx_len (xfer_block (minfo info) ! i) \<le> length (xfer_buf (xfer_block (minfo info) ! i))"
    "size_t_of_int (max_msg_size (desc info)) < 256 \<Longrightarrow>
       sizeof_hdr \<le> rx_len (xfer_block (minfo info) ! i)"
proof -
  from bit show b: "i < length (xfer_alloc_table (minfo info))" "xfer_alloc_table (minfo info) ! i"
    by (simp_all add: test_bit_def split: if_splits)
  with inv show n: "i < nat (sint (max_msgs (desc info)))"
    unfolding ti_sci_inv_iff by (meson not_le)
  with inv show "i < length (xfer_block (minfo info))" by (simp add: ti_sci_inv_iff)
  from inv n have "slot_inv (desc info) (xfer_alloc_table (minfo info)) i (xfer_block (minfo info) ! i)"
    by (simp add: ti_sci_inv_iff)
  with b show "sizeof_hdr \<le> length (xfer_buf (xfer_block (minfo info) ! i))"
    "unat (hdr_seq (xfer_buf (xfer_block (minfo info) ! i))) = i"
    "rx_len (xfer_block (minfo info) ! i) \<le> length (xfer_buf (xfer_block (minfo info) ! i))"
    "size_t_of_int (max_msg_size (desc info)) < 256 \<Longrightarrow>
       sizeof_hdr \<le> rx_len (xfer_block (minfo info) ! i)"
    by (simp_all add: slot_inv_def)
qed

lemma put_one_xfer_allocated:
  assumes inv: "ti_sci_inv info"
    and bit: "test_bit i (xfer_alloc_table (minfo info)) = Some True"
  shows "ti_sci_put_one_xfer (minfo info) i =
           Some ((minfo info)\<lparr>xfer_alloc_table := (xfer_alloc_table (minfo info))[i := False],
                              sem_xfer_count := sem_xfer_count (minfo info) + 1\<rparr>)"
  using inv_allocated [OF inv bit]
  by (simp add: ti_sci_put_one_xfer_def xfer_at_def clear_bit_def up_def sizeof_hdr_def Let_def)

lemma inv_put:
  assumes inv: "ti_sci_inv info"
    and bit: "test_bit i (xfer_alloc_table (minfo info)) = Some True"
  shows "ti_sci_inv (info\<lparr>minfo := (minfo info)\<lparr>xfer_alloc_table := (xfer_alloc_table (minfo info))[i := False],
                              sem_xfer_count := sem_xfer_count (minfo info) + 1\<rparr>\<rparr>)"
proof -
  note a = inv_allocated [OF inv bit]
  have w: "Suc (bitmap_weight ((xfer_alloc_table (minfo info))[i := False])) =
      bitmap_weight (xfer_alloc_table (minfo info))"
    using a by (intro bitmap_weight_clear)
  show ?thesis
    using inv w a(1) unfolding ti_sci_inv_iff
    by (auto simp: nth_list_update slot_inv_def)
qed

lemma rx_callback_frame:
  assumes "ti_sci_rx_callback info m = Some (l, info')"
  shows "desc info' = desc info" "version info' = version info"
    "xfer_alloc_table (minfo info') = xfer_alloc_table (minfo info)"
    "sem_xfer_count (minfo info') = sem_xfer_count (minfo info)"
    "length (xfer_block (minfo info')) = length (xfer_block (minfo info))"
  using assms
  by (auto simp: ti_sci_rx_callback_def Let_def xfer_store_def
      split: if_splits option.splits bool.splits)

lemma rx_callback_inv:
  assumes inv: "ti_sci_inv info"
    and rx: "ti_sci_rx_callback info m = Some (l, info')"
  shows "ti_sci_inv info'"
proof (cases "info' = info")
  case True
  with inv show ?thesis by simp
next
  case False
  let ?i = "unat (hdr_seq (buf m))"
  let ?x = "xfer_block (minfo info) ! ?i"
  from rx False have m3: "3 < length (buf m)"
    and bit: "test_bit ?i (xfer_alloc_table (minfo info)) = Some True"
    by (auto simp: ti_sci_rx_callback_def Let_def split: if_splits option.splits bool.splits)
  note a = inv_allocated [OF inv bit]
  from rx False bit a(2) obtain b where b: "memcpy (xfer_buf ?x) (buf m) (rx_len ?x) = Some b"
    and info': "info' = xfer_store ?i (?x\<lparr>xfer_buf := b, xfer_done := complete (xfer_done ?x)\<rparr>) info"
    by (auto simp: ti_sci_rx_callback_def Let_def xfer_at_def split: if_splits option.splits)
  from b have bl: "length b = length (xfer_buf ?x)"
    and b3: "b ! 3 = (if 3 < rx_len ?x then buf m ! 3 else xfer_buf ?x ! 3)"
    using a(5) by (auto simp: memcpy_def nth_append sizeof_hdr_def split: if_splits)
  have seq: "unat (hdr_seq b) = ?i"
    using b3 a(6) by (simp add: hdr_seq_def)
  show ?thesis
    using inv a seq bl unfolding ti_sci_inv_iff info'
    by (auto simp: xfer_store_def nth_list_update slot_inv_def)
qed

lemma rx_callback_defined:
  assumes inv: "ti_sci_inv info"
    and ok: "msg_ok info m"
  shows "\<exists>l info'. ti_sci_rx_callback info m = Some (l, info')"
proof -
  let ?i = "unat (hdr_seq (buf m))"
  from ok have m: "sizeof_hdr \<le> length (buf m)" "len m \<le> length (buf m)"
    "?i < length (xfer_alloc_table (minfo info))" by (simp_all add: msg_ok_def)
  show ?thesis
  proof (cases "xfer_alloc_table (minfo info) ! ?i")
    case False
    with m show ?thesis
      by (simp add: ti_sci_rx_callback_def test_bit_def sizeof_hdr_def)
  next
    case True
    with m have bit: "test_bit ?i (xfer_alloc_table (minfo info)) = Some True"
      by (simp add: test_bit_def)
    note a = inv_allocated [OF inv bit]
    show ?thesis
      using m a bit
      by (simp add: ti_sci_rx_callback_def xfer_at_def memcpy_def sizeof_hdr_def Let_def)
  qed
qed

subsection \<open>Runs, probe and the version exchange keep the invariant\<close>

lemma inv_bound:
  assumes "ti_sci_inv info"
  shows "bitmap_weight (xfer_alloc_table (minfo info)) \<le> nat (sint (max_msgs (desc info)))"
    "sem_xfer_count (minfo info) + bitmap_weight (xfer_alloc_table (minfo info)) =
       nat (sint (max_msgs (desc info)))"
  using assms by (simp_all add: ti_sci_inv_iff)

lemma contract_take: "contract info ops \<Longrightarrow> contract info (take k ops)"
proof (induction ops arbitrary: info k)
  case Nil
  then show ?case by simp
next
  case (Cons x xs)
  then show ?case by (cases k) (auto split: option.splits)
qed

lemma init_xfers_Some:
  "init_xfers ok sz i xs = Some ys \<Longrightarrow>
   length ys = length xs \<and> (xs \<noteq> [] \<longrightarrow> 0 \<le> sint sz) \<and>
   (\<forall>j < length xs. ys ! j = (xs ! j)\<lparr>xfer_buf := replicate (size_t_of_int sz) 0,
                                        xfer_done := init_completion\<rparr>)"
proof (induction xs arbitrary: i ys)
  case Nil
  then show ?case by simp
next
  case (Cons x xs)
  from Cons.prems obtain zs where zs: "init_xfers ok sz (Suc i) xs = Some zs"
    and "0 \<le> sint sz"
    and ys: "ys = x\<lparr>xfer_buf := replicate (size_t_of_int sz) 0, xfer_done := init_completion\<rparr> # zs"
    by (auto split: if_splits option.splits)
  from Cons.IH [OF zs] ys \<open>0 \<le> sint sz\<close> show ?case
    by (auto simp: nth_Cons split: nat.splits)
qed

lemma BITS_TO_LONGS_cover: "n \<le> BITS_TO_LONGS n * BITS_PER_LONG"
  unfolding BITS_TO_LONGS_def BITS_PER_LONG_def by presburger

lemma inv_probe_alloc:
  assumes n: "0 \<le> sint (max_msgs d)" "sint (max_msgs d) < 256"
    and blk: "init_xfers ok (max_msg_size d) 0 (replicate (size_t_of_int (max_msgs d)) zeroed_xfer)
                = Some block"
  shows "ti_sci_inv \<lparr>desc = d, version = v,
            minfo = \<lparr>sem_xfer_count = nat (sint (max_msgs d)), xfer_block = block,
                     xfer_alloc_table =
                       replicate (BITS_TO_LONGS (size_t_of_int (max_msgs d)) * BITS_PER_LONG) False\<rparr>\<rparr>"
proof -
  have sz: "size_t_of_int (max_msgs d) = nat (sint (max_msgs d))"
    using n by (simp add: size_t_of_int_nat)
  note b = init_xfers_Some [OF blk]
  have w: "bitmap_weight (replicate k False) = 0" for k
    by (simp add: bitmap_weight_def)
  show ?thesis
    unfolding ti_sci_inv_iff
    using n b BITS_TO_LONGS_cover [of "nat (sint (max_msgs d))"]
    by (simp add: sz w slot_inv_def zeroed_xfer_def)
qed

lemma rx_callbacks_inv:
  "ti_sci_inv info \<Longrightarrow> rx_callbacks info ms = Some info' \<Longrightarrow>
   ti_sci_inv info' \<and> desc info' = desc info \<and> version info' = version info \<and>
   xfer_alloc_table (minfo info') = xfer_alloc_table (minfo info) \<and>
   sem_xfer_count (minfo info') = sem_xfer_count (minfo info)"
proof (induction ms arbitrary: info)
  case Nil
  then show ?case by simp
next
  case (Cons m ms)
  from Cons.prems(2) obtain l info1 where r: "ti_sci_rx_callback info m = Some (l, info1)"
    and rest: "rx_callbacks info1 ms = Some info'"
    by (auto split: option.splits)
  from Cons.prems(1) r have "ti_sci_inv info1" by (rule rx_callback_inv)
  from Cons.IH [OF this rest] rx_callback_frame [OF r] show ?case by simp
qed

lemma inv_xfer_done:
  assumes "ti_sci_inv info" "i < length (xfer_block (minfo info))"
  shows "ti_sci_inv (xfer_store i ((xfer_block (minfo info) ! i)\<lparr>xfer_done := d\<rparr>) info)"
  using assms unfolding ti_sci_inv_iff
  by (auto simp: xfer_store_def nth_list_update slot_inv_def)

lemma inv_version: "ti_sci_inv (info\<lparr>version := v\<rparr>) = ti_sci_inv info"
  by (simp add: ti_sci_inv_iff)

lemma do_xfer_inv:
  assumes inv: "ti_sci_inv info" and x: "ti_sci_do_xfer info i s ms = Some (ret, info')"
  shows "ti_sci_inv info' \<and> desc info' = desc info \<and> version info' = version info \<and>
   xfer_alloc_table (minfo info') = xfer_alloc_table (minfo info) \<and>
   sem_xfer_count (minfo info') = sem_xfer_count (minfo info)"
proof (cases "s < 0")
  case True
  with x inv show ?thesis by (simp add: ti_sci_do_xfer_def)
next
  case False
  with x obtain info1 where r: "rx_callbacks info ms = Some info1"
    and i: "i < length (xfer_block (minfo info1))"
    and info': "info' = xfer_store i ((xfer_block (minfo info1) ! i)
        \<lparr>xfer_done := fst (wait_for_completion_timeout (xfer_done (xfer_block (minfo info1) ! i)))\<rparr>) info1"
    by (auto simp: ti_sci_do_xfer_def xfer_at_def Let_def split: option.splits if_splits prod.splits)
  note a = rx_callbacks_inv [OF inv r]
  from a i have "ti_sci_inv info'" unfolding info' by (intro inv_xfer_done) simp_all
  with a show ?thesis by (simp add: info' xfer_store_def)
qed

lemma rx_callbacks_defined:
  "ti_sci_inv info \<Longrightarrow> list_all (msg_ok info) ms \<Longrightarrow> \<exists>info'. rx_callbacks info ms = Some info'"
proof (induction ms arbitrary: info)
  case Nil
  then show ?case by simp
next
  case (Cons m ms)
  from Cons.prems obtain l info1 where r: "ti_sci_rx_callback info m = Some (l, info1)"
    using rx_callback_defined by fastforce
  from Cons.prems(1) r have i: "ti_sci_inv info1" by (rule rx_callback_inv)
  from rx_callback_frame(3) [OF r] have "msg_ok info1 = msg_ok info"
    by (simp add: msg_ok_def fun_eq_iff)
  with Cons.prems(2) have "list_all (msg_ok info1) ms"
    by simp
  from Cons.IH [OF i this] r show ?case by simp
qed

lemma do_xfer_defined:
  assumes inv: "ti_sci_inv info"
    and bit: "test_bit i (xfer_alloc_table (minfo info)) = Some True"
    and ms: "list_all (msg_ok info) ms"
  shows "\<exists>ret info'. ti_sci_do_xfer info i s ms = Some (ret, info')"
proof -
  from rx_callbacks_defined [OF inv ms] obtain info1 where r: "rx_callbacks info ms = Some info1"
    by blast
  note a = rx_callbacks_inv [OF inv r]
  from a bit have "test_bit i (xfer_alloc_table (minfo info1)) = Some True" by simp
  from inv_allocated(2) [OF conjunct1 [OF a] this] r show ?thesis
    by (simp add: ti_sci_do_xfer_def xfer_at_def Let_def split: prod.splits)
qed

lemma get_one_xfer_desc:
  "ti_sci_get_one_xfer info msg_type msg_flags tx rx = Some (r, info') \<Longrightarrow> desc info' = desc info"
  by (auto simp: ti_sci_get_one_xfer_def xfer_store_def Let_def
      split: if_splits option.splits prod.splits)

lemma step_inv:
  assumes inv: "ti_sci_inv info" and ok: "op_ok info x"
  shows "\<exists>info'. step info x = Some info' \<and> ti_sci_inv info' \<and> desc info' = desc info"
proof (cases x)
  case (Get msg_type msg_flags tx rx)
  from get_one_xfer_inv [OF inv, of msg_type msg_flags tx rx] obtain r info'
    where g: "ti_sci_get_one_xfer info msg_type msg_flags tx rx = Some (r, info')"
      and i: "ti_sci_inv info'" by blast
  from g have "desc info' = desc info" by (rule get_one_xfer_desc)
  with Get g i show ?thesis by simp
next
  case (Xfer xfer_ix s ms)
  with ok have bit: "test_bit xfer_ix (xfer_alloc_table (minfo info)) = Some True"
    and ms: "list_all (msg_ok info) ms" by simp_all
  from do_xfer_defined [OF inv bit ms] obtain ret info'
    where x: "ti_sci_do_xfer info xfer_ix s ms = Some (ret, info')" by blast
  from do_xfer_inv [OF inv x] x Xfer show ?thesis by simp
next
  case (Put xfer_ix)
  with ok have bit: "test_bit xfer_ix (xfer_alloc_table (minfo info)) = Some True" by simp
  show ?thesis
    using Put put_one_xfer_allocated [OF inv bit] inv_put [OF inv bit] by simp
next
  case (Arrival m)
  with ok have "msg_ok info m" by simp
  then obtain l info' where r: "ti_sci_rx_callback info m = Some (l, info')"
    using rx_callback_defined [OF inv] by blast
  with inv have "ti_sci_inv info'" by (rule rx_callback_inv)
  with r Arrival rx_callback_frame(1) [OF r] show ?thesis by simp
qed

lemma run_inv:
  "ti_sci_inv info \<Longrightarrow> contract info ops \<Longrightarrow>
   \<exists>info'. run info ops = Some info' \<and> ti_sci_inv info' \<and> desc info' = desc info"
proof (induction ops arbitrary: info)
  case Nil
  then show ?case by simp
next
  case (Cons x xs)
  from Cons.prems have ok: "op_ok info x" by simp
  with Cons.prems(1) obtain info1 where s: "step info x = Some info1" and i: "ti_sci_inv info1"
    and d: "desc info1 = desc info"
    using step_inv by blast
  from Cons.prems(2) s have "contract info1 xs" by simp
  with i Cons.IH obtain info' where "run info1 xs = Some info'" "ti_sci_inv info'"
    "desc info' = desc info1" by blast
  with s d show ?case by simp
qed

lemma get_one_xfer_Inr:
  assumes inv: "ti_sci_inv info"
    and get: "ti_sci_get_one_xfer info msg_type msg_flags tx rx = Some (Inr i, info1)"
  shows "i = first_zero (take (nat (sint (max_msgs (desc info)))) (xfer_alloc_table (minfo info)))"
    "info1 = got info msg_type msg_flags tx rx i"
    "0 < sem_xfer_count (minfo info)"
    "sizeof_hdr \<le> rx" "rx \<le> size_t_of_int (max_msg_size (desc info))"
    "tx \<le> size_t_of_int (max_msg_size (desc info))"
    "i < nat (sint (max_msgs (desc info)))"
    "\<not> xfer_alloc_table (minfo info) ! i"
    "\<forall>j<i. xfer_alloc_table (minfo info) ! j"
    "ti_sci_inv info1"
proof -
  let ?n = "nat (sint (max_msgs (desc info)))" and ?t = "xfer_alloc_table (minfo info)"
  from get show i: "i = first_zero (take ?n ?t)"
    and "info1 = got info msg_type msg_flags tx rx i"
    and sem: "0 < sem_xfer_count (minfo info)"
    and rx: "sizeof_hdr \<le> rx" "rx \<le> size_t_of_int (max_msg_size (desc info))"
    and "tx \<le> size_t_of_int (max_msg_size (desc info))"
    unfolding get_one_xfer_cases [OF inv] by (auto split: if_splits)
  from inv_free_slot [OF inv sem] i show n: "i < ?n" by simp
  from inv have "?n \<le> length ?t" by (simp add: ti_sci_inv_iff)
  with n have l: "i < length (take ?n ?t)" by simp
  then have "\<not> take ?n ?t ! i" unfolding i by (rule first_zero_clear)
  with n show c: "\<not> ?t ! i" by simp
  show "\<forall>j<i. ?t ! j"
  proof (intro allI impI)
    fix j assume j: "j < i"
    then have "take ?n ?t ! j" unfolding i by (rule first_zero_least)
    with j n show "?t ! j" by simp
  qed
  from get_one_xfer_inv [OF inv, of msg_type msg_flags tx rx] get show "ti_sci_inv info1"
    by auto
qed

lemma got_fields:
  "desc (got info msg_type msg_flags tx rx i) = desc info"
  "version (got info msg_type msg_flags tx rx i) = version info"
  "xfer_alloc_table (minfo (got info msg_type msg_flags tx rx i)) =
     (xfer_alloc_table (minfo info))[i := True]"
  "sem_xfer_count (minfo (got info msg_type msg_flags tx rx i)) = sem_xfer_count (minfo info) - 1"
  by (simp_all add: got_def xfer_store_def)

lemma cmd_get_revision_exchange:
  assumes inv: "ti_sci_inv info"
    and get: "ti_sci_get_one_xfer info TI_SCI_MSG_VERSION 0 sizeof_hdr sizeof_resp_version =
                Some (Inr i, info1)"
    and xfer: "ti_sci_do_xfer info1 i s ms = Some (ret, info2)"
  shows "\<exists>info'. ti_sci_cmd_get_revision info s ms = Some (ret, info') \<and> ti_sci_inv info' \<and>
           desc info' = desc info \<and>
           xfer_alloc_table (minfo info') = xfer_alloc_table (minfo info) \<and>
           sem_xfer_count (minfo info') = sem_xfer_count (minfo info) \<and>
           sem_xfer_count (minfo info') = sem_xfer_count (minfo info1) + 1"
proof -
  let ?t = "xfer_alloc_table (minfo info)"
  note g = get_one_xfer_Inr [OF inv get]
  note x = do_xfer_inv [OF g(10) xfer]
  from inv g(7) have il: "i < length ?t" by (simp add: ti_sci_inv_iff)
  have t1: "xfer_alloc_table (minfo info1) = ?t[i := True]"
    and s1: "sem_xfer_count (minfo info1) = sem_xfer_count (minfo info) - 1"
    and d1: "desc info1 = desc info"
    unfolding g(2) by (simp_all add: got_fields)
  have restore: "?t[i := True, i := False] = ?t"
    using g(8) il by (simp add: list_update_same_conv)
  have bit2: "test_bit i (xfer_alloc_table (minfo info2)) = Some True"
    using x t1 il by (simp add: test_bit_def)
  show ?thesis
  proof (cases "ret = 0")
    case False
    have "ti_sci_cmd_get_revision info s ms =
        Some (ret, info2\<lparr>minfo := (minfo info2)\<lparr>xfer_alloc_table := (xfer_alloc_table (minfo info2))[i := False],
                              sem_xfer_count := sem_xfer_count (minfo info2) + 1\<rparr>\<rparr>)"
      using get xfer False put_one_xfer_allocated [OF conjunct1 [OF x] bit2]
      by (simp add: ti_sci_cmd_get_revision_def)
    moreover note inv_put [OF conjunct1 [OF x] bit2]
    ultimately show ?thesis
      using x t1 s1 d1 g(3) restore by simp
  next
    case True
    let ?v = "\<lparr>abi_major = abi_major (resp_version (xfer_buf (xfer_block (minfo info2) ! i))),
                abi_minor = abi_minor (resp_version (xfer_buf (xfer_block (minfo info2) ! i))),
                firmware_revision = firmware_revision (resp_version (xfer_buf (xfer_block (minfo info2) ! i))),
                firmware_description =
                  strncpy (firmware_description (resp_version (xfer_buf (xfer_block (minfo info2) ! i)))) 32\<rparr>"
    let ?info3 = "info2\<lparr>version := ?v\<rparr>"
    have inv3: "ti_sci_inv ?info3" using x by (simp add: inv_version)
    have bit3: "test_bit i (xfer_alloc_table (minfo ?info3)) = Some True" using bit2 by simp
    note a = inv_allocated [OF conjunct1 [OF x] bit2]
    from conjunct1 [OF x] a(1) have "slot_inv (desc info2) (xfer_alloc_table (minfo info2)) i
        (xfer_block (minfo info2) ! i)"
      by (simp add: ti_sci_inv_iff)
    then have "length (xfer_buf (xfer_block (minfo info2) ! i)) = size_t_of_int (max_msg_size (desc info))"
      using x d1 by (simp add: slot_inv_def)
    with g(5) have len: "sizeof_resp_version \<le> length (xfer_buf (xfer_block (minfo info2) ! i))"
      by simp
    have "ti_sci_cmd_get_revision info s ms =
        Some (ret, ?info3\<lparr>minfo := (minfo ?info3)\<lparr>xfer_alloc_table := (xfer_alloc_table (minfo ?info3))[i := False],
                              sem_xfer_count := sem_xfer_count (minfo ?info3) + 1\<rparr>\<rparr>)"
      using get xfer True put_one_xfer_allocated [OF inv3 bit3] a(2) len
      by (simp add: ti_sci_cmd_get_revision_def xfer_at_def Let_def)
    moreover note inv_put [OF inv3 bit3]
    ultimately show ?thesis
      using x t1 s1 d1 g(3) restore by simp
  qed
qed

lemma cmd_get_revision_inv:
  assumes inv: "ti_sci_inv info"
    and cmd: "ti_sci_cmd_get_revision info s ms = Some (ret, info')"
  shows "ti_sci_inv info'"
proof -
  from cmd obtain r info1 where
    get: "ti_sci_get_one_xfer info TI_SCI_MSG_VERSION 0 sizeof_hdr sizeof_resp_version = Some (r, info1)"
    by (auto simp: ti_sci_cmd_get_revision_def split: option.splits)
  show ?thesis
  proof (cases r)
    case (Inl e)
    with get cmd have "info' = info1" by (simp add: ti_sci_cmd_get_revision_def)
    moreover from get_one_xfer_inv [OF inv, of TI_SCI_MSG_VERSION 0 sizeof_hdr sizeof_resp_version] get
    have "ti_sci_inv info1" by auto
    ultimately show ?thesis by simp
  next
    case (Inr i)
    with get cmd obtain ret2 info2 where "ti_sci_do_xfer info1 i s ms = Some (ret2, info2)"
      by (auto simp: ti_sci_cmd_get_revision_def split: option.splits)
    from cmd_get_revision_exchange [OF inv get [unfolded Inr] this] cmd show ?thesis by auto
  qed
qed

lemma probe_inv:
  assumes "ti_sci_probe env = Some (ret, Some info)"
  shows "ti_sci_inv info" "ret = 0"
proof -
  from assms obtain d block info0 where d: "env_of_match_device env = Some d"
    and n: "0 \<le> sint (max_msgs d)" "sint (max_msgs d) < 256"
    and blk: "init_xfers (env_kcalloc_xfer_buf env) (max_msg_size d) 0
                (replicate (size_t_of_int (max_msgs d)) zeroed_xfer) = Some block"
    and info0: "info0 = \<lparr>desc = d, version = zeroed_version,
            minfo = \<lparr>sem_xfer_count = nat (sint (max_msgs d)), xfer_block = block,
                     xfer_alloc_table =
                       replicate (BITS_TO_LONGS (size_t_of_int (max_msgs d)) * BITS_PER_LONG) False\<rparr>\<rparr>"
    and cmd: "ti_sci_cmd_get_revision info0 (env_mbox_send_message env) (env_arrivals env) = Some (ret, info)"
    and ret: "ret = 0"
    by (auto simp: ti_sci_probe_def Let_def sizeof_hdr_seq_def split: option.splits if_splits)
  have "ti_sci_inv info0" unfolding info0 using n blk by (rule inv_probe_alloc)
  then show "ti_sci_inv info" using cmd by (rule cmd_get_revision_inv)
  show "ret = 0" by (rule ret)
qed

lemma get_one_xfer_Inl:
  "ti_sci_get_one_xfer info msg_type msg_flags tx rx = Some (Inl e, info') \<Longrightarrow> e < 0"
  by (auto simp: ti_sci_get_one_xfer_def ERANGE_def Let_def
      split: if_splits option.splits prod.splits)

lemma probe_desc:
  assumes "ti_sci_probe env = Some (ret, Some info)"
  shows "0 < sint (max_msgs (desc info))" "0 \<le> sint (max_msg_size (desc info))"
    "env_of_match_device env = Some (desc info)"
proof -
  from assms obtain d block info0 where d: "env_of_match_device env = Some d"
    and n: "0 \<le> sint (max_msgs d)" "sint (max_msgs d) < 256"
    and blk: "init_xfers (env_kcalloc_xfer_buf env) (max_msg_size d) 0
                (replicate (size_t_of_int (max_msgs d)) zeroed_xfer) = Some block"
    and info0: "info0 = \<lparr>desc = d, version = zeroed_version,
            minfo = \<lparr>sem_xfer_count = nat (sint (max_msgs d)), xfer_block = block,
                     xfer_alloc_table =
                       replicate (BITS_TO_LONGS (size_t_of_int (max_msgs d)) * BITS_PER_LONG) False\<rparr>\<rparr>"
    and cmd: "ti_sci_cmd_get_revision info0 (env_mbox_send_message env) (env_arrivals env) =
                Some (0, info)"
    by (auto simp: ti_sci_probe_def Let_def sizeof_hdr_seq_def split: option.splits if_splits)
  have inv0: "ti_sci_inv info0" unfolding info0 using n blk by (rule inv_probe_alloc)
  from cmd obtain r info1 where
    get: "ti_sci_get_one_xfer info0 TI_SCI_MSG_VERSION 0 sizeof_hdr sizeof_resp_version =
            Some (r, info1)"
    by (auto simp: ti_sci_cmd_get_revision_def split: option.splits)
  have "e < 0" if "r = Inl e" for e
    using get that by (auto dest: get_one_xfer_Inl)
  with get cmd obtain i where r: "r = Inr i"
    by (cases r) (auto simp: ti_sci_cmd_get_revision_def)
  from get cmd r obtain ret2 info2 where x: "ti_sci_do_xfer info1 i (env_mbox_send_message env)
      (env_arrivals env) = Some (ret2, info2)"
    by (auto simp: ti_sci_cmd_get_revision_def split: option.splits)
  from cmd_get_revision_exchange [OF inv0 get [unfolded r] x] cmd
  have dd: "desc info = desc info0" by auto
  from get_one_xfer_Inr(7) [OF inv0 get [unfolded r]] show pos: "0 < sint (max_msgs (desc info))"
    unfolding dd by simp
  from probe_inv(1) [OF assms] pos show "0 \<le> sint (max_msg_size (desc info))"
    by (simp add: ti_sci_inv_iff)
  from d dd show "env_of_match_device env = Some (desc info)"
    by (simp add: info0)
qed

lemma reached_inv:
  assumes "reached env ops = Some info"
  shows "ti_sci_inv info" "0 < sint (max_msgs (desc info))" "0 \<le> sint (max_msg_size (desc info))"
proof -
  from assms obtain ret info0 where p: "ti_sci_probe env = Some (ret, Some info0)"
    and c: "contract info0 ops" and r: "run info0 ops = Some info"
    by (auto simp: reached_def split: option.splits if_splits)
  from run_inv [OF probe_inv(1) [OF p] c] r show "ti_sci_inv info"
    and d: "0 < sint (max_msgs (desc info))" "0 \<le> sint (max_msg_size (desc info))"
    using probe_desc [OF p] by auto
qed

subsection \<open>The halves of an allocation, and the finer runs\<close>

lemma get_one_xfer_split:
  "ti_sci_get_one_xfer info msg_type msg_flags tx rx =
     (case ti_sci_get_one_xfer_take info tx rx of
        None \<Rightarrow> None
      | Some (Inl ret, info1) \<Rightarrow> Some (Inl ret, info1)
      | Some (Inr bit_pos, info1) \<Rightarrow>
          (case ti_sci_get_one_xfer_fill info1 bit_pos msg_type msg_flags tx rx of
             None \<Rightarrow> None
           | Some (xfer_id, info2) \<Rightarrow> Some (Inr xfer_id, info2)))"
  by (simp add: ti_sci_get_one_xfer_def ti_sci_get_one_xfer_take_def ti_sci_get_one_xfer_fill_def
      xfer_at_def xfer_store_def Let_def split: prod.splits option.splits)

lemma probe_split:
  "ti_sci_probe env =
     (case ti_sci_probe_pool env of
        Inl ret \<Rightarrow> Some (ret, None)
      | Inr info \<Rightarrow>
          (case env_chan_rx env of
             Some e \<Rightarrow> Some (e, None)
           | None \<Rightarrow>
               (case env_chan_tx env of
                  Some e \<Rightarrow> Some (e, None)
                | None \<Rightarrow>
                    (case ti_sci_cmd_get_revision info (env_mbox_send_message env)
                            (env_arrivals env) of
                       None \<Rightarrow> None
                     | Some (ret, info') \<Rightarrow>
                         if ret \<noteq> 0 then Some (ret, None) else Some (0, Some info')))))"
  by (simp add: ti_sci_probe_def ti_sci_probe_pool_def Let_def split: option.splits)

lemma cmd_get_revision_split:
  "ti_sci_cmd_get_revision info s ms =
     (case ti_sci_get_one_xfer info TI_SCI_MSG_VERSION 0 sizeof_hdr sizeof_resp_version of
        None \<Rightarrow> None
      | Some (Inl ret, info1) \<Rightarrow> Some (ret, info1)
      | Some (Inr xfer_ix, info1) \<Rightarrow>
          (case ti_sci_do_xfer info1 xfer_ix s ms of
             None \<Rightarrow> None
           | Some (ret, info2) \<Rightarrow>
               if ret \<noteq> 0
               then (case ti_sci_put_one_xfer (minfo info2) xfer_ix of
                       None \<Rightarrow> None
                     | Some mi \<Rightarrow> Some (ret, info2\<lparr>minfo := mi\<rparr>))
               else
                 (case copy_version info2 xfer_ix of
                    None \<Rightarrow> None
                  | Some info3 \<Rightarrow>
                      (case ti_sci_put_one_xfer (minfo info3) xfer_ix of
                         None \<Rightarrow> None
                       | Some mi \<Rightarrow> Some (ret, info3\<lparr>minfo := mi\<rparr>)))))"
  by (simp add: ti_sci_cmd_get_revision_def copy_version_def Let_def
      split: option.splits sum.splits prod.splits)

lemma fine_inv_iff:
  "fine_inv (info, calls) \<longleftrightarrow>
     (0 \<le> sint (max_msgs (desc info)) \<and> sint (max_msgs (desc info)) < 256 \<and>
      (0 < sint (max_msgs (desc info)) \<longrightarrow> 0 \<le> sint (max_msg_size (desc info))) \<and>
      length (xfer_block (minfo info)) = nat (sint (max_msgs (desc info))) \<and>
      nat (sint (max_msgs (desc info))) \<le> length (xfer_alloc_table (minfo info)) \<and>
      list_all Not (drop (nat (sint (max_msgs (desc info)))) (xfer_alloc_table (minfo info))) \<and>
      sem_xfer_count (minfo info) + bitmap_weight (xfer_alloc_table (minfo info)) =
        nat (sint (max_msgs (desc info))) \<and>
      (\<forall>i < nat (sint (max_msgs (desc info))).
         slot_ok (desc info) (xfer_alloc_table (minfo info) ! i \<and> i \<notin> set (pending calls)) i
           (xfer_block (minfo info) ! i)) \<and>
      (\<forall>c \<in> set calls. call_ok info c))"
  by (auto simp add: fine_inv_def Let_def list_all_iff)

lemma fine_inv_no_calls: "fine_inv (info, []) = ti_sci_inv info"
  by (simp add: fine_inv_def ti_sci_inv_def Let_def slot_ok_def slot_inv_def pending_def)

lemma beyond_clear:
  assumes "list_all Not (drop n t)" "i < length t" "t ! i"
  shows "i < n"
proof (rule ccontr)
  assume "\<not> i < n"
  with assms(2) have "drop n t ! (i - n) = t ! i" "i - n < length (drop n t)" by auto
  with assms(1,3) show False by (metis list_all_length)
qed

lemma drop_update_clear:
  assumes "list_all Not (drop n t)" "i < n"
  shows "list_all Not (drop n (t[i := b]))"
  using assms by (simp add: drop_update_cancel)

lemma fine_free_slot:
  assumes "fine_inv (info, calls)" "0 < sem_xfer_count (minfo info)"
  shows "first_zero (take (nat (sint (max_msgs (desc info)))) (xfer_alloc_table (minfo info)))
           < nat (sint (max_msgs (desc info)))"
proof -
  let ?n = "nat (sint (max_msgs (desc info)))" and ?t = "xfer_alloc_table (minfo info)"
  from assms(1) have n: "?n \<le> length ?t" and clr: "list_all Not (drop ?n ?t)"
    and sum: "sem_xfer_count (minfo info) + bitmap_weight ?t = ?n"
    unfolding fine_inv_iff by blast+
  have "bitmap_weight (take ?n ?t) = bitmap_weight ?t" using clr by (rule bitmap_weight_take)
  with sum assms(2) have "bitmap_weight (take ?n ?t) < length (take ?n ?t)" using n by simp
  then have "first_zero (take ?n ?t) < length (take ?n ?t)" by (rule first_zero_found)
  then show ?thesis using n by simp
qed

lemma take_cases:
  assumes inv: "fine_inv (info, calls)"
  shows "ti_sci_get_one_xfer_take info tx rx =
    (if rx > size_t_of_int (max_msg_size (desc info)) \<or>
        tx > size_t_of_int (max_msg_size (desc info)) \<or> rx < sizeof_hdr
     then Some (Inl (- ERANGE), info)
     else if sem_xfer_count (minfo info) = 0 then Some (Inl (- ETIME), info)
     else Some (Inr (first_zero (take (nat (sint (max_msgs (desc info))))
                       (xfer_alloc_table (minfo info)))),
                info\<lparr>minfo := (minfo info)
                  \<lparr>sem_xfer_count := sem_xfer_count (minfo info) - 1,
                   xfer_alloc_table := (xfer_alloc_table (minfo info))
                     [first_zero (take (nat (sint (max_msgs (desc info))))
                        (xfer_alloc_table (minfo info))) := True]\<rparr>\<rparr>))"
proof -
  let ?n = "nat (sint (max_msgs (desc info)))" and ?t = "xfer_alloc_table (minfo info)"
  let ?i = "first_zero (take ?n ?t)"
  from inv have n: "0 \<le> sint (max_msgs (desc info))" "sint (max_msgs (desc info)) < 256"
    "?n \<le> length ?t"
    unfolding fine_inv_iff by blast+
  have sz: "size_t_of_int (max_msgs (desc info)) = ?n"
    using n by (simp add: size_t_of_int_nat)
  show ?thesis
  proof (cases "0 < sem_xfer_count (minfo info)")
    case True
    from fine_free_slot [OF inv True] have i: "?i < ?n" .
    have "length (take ?n ?t) = ?n" using n by simp
    with i have ffz: "find_first_zero_bit ?t ?n = Some ?i"
      by (intro find_first_zero_bit_found) (simp only:)
    from i n have "?i < length ?t" by linarith
    with True ffz show ?thesis
      by (auto simp add: ti_sci_get_one_xfer_take_def down_timeout_def sz set_bit_bitmap_def
          ETIME_def)
  next
    case False
    then show ?thesis
      by (auto simp add: ti_sci_get_one_xfer_take_def down_timeout_def ETIME_def)
  qed
qed

lemma slot_ok_unheld: "slot_ok d held i xfer \<Longrightarrow> slot_ok d False i xfer"
  by (simp add: slot_ok_def)

lemma fine_step_take:
  assumes inv: "fine_inv (info, calls)"
  shows "\<exists>s'. fine_step (info, calls) (Take msg_type msg_flags tx rx) = Some s' \<and>
           fine_inv s' \<and> desc (fst s') = desc info"
proof -
  let ?n = "nat (sint (max_msgs (desc info)))" and ?t = "xfer_alloc_table (minfo info)"
  let ?i = "first_zero (take ?n ?t)"
  let ?c = "\<lparr>call_bit_pos = ?i, call_msg_type = msg_type, call_msg_flags = msg_flags,
             call_tx_message_size = tx, call_rx_message_size = rx\<rparr>"
  let ?info' = "info\<lparr>minfo := (minfo info)\<lparr>sem_xfer_count := sem_xfer_count (minfo info) - 1,
                   xfer_alloc_table := ?t[?i := True]\<rparr>\<rparr>"
  show ?thesis
  proof (cases "sizeof_hdr \<le> rx \<and> rx \<le> size_t_of_int (max_msg_size (desc info)) \<and>
        tx \<le> size_t_of_int (max_msg_size (desc info)) \<and> 0 < sem_xfer_count (minfo info)")
    case False
    then have "fine_step (info, calls) (Take msg_type msg_flags tx rx) = Some (info, calls)"
      by (auto simp add: take_cases [OF inv])
    with inv show ?thesis by simp
  next
    case True
    then have st: "fine_step (info, calls) (Take msg_type msg_flags tx rx) = Some (?info', ?c # calls)"
      by (simp add: take_cases [OF inv])
    from True have sem: "0 < sem_xfer_count (minfo info)" by simp
    from fine_free_slot [OF inv sem] have i: "?i < ?n" .
    from inv have n: "0 \<le> sint (max_msgs (desc info))" "sint (max_msgs (desc info)) < 256"
      "0 < sint (max_msgs (desc info)) \<longrightarrow> 0 \<le> sint (max_msg_size (desc info))"
      "length (xfer_block (minfo info)) = ?n" "?n \<le> length ?t"
      and clr: "list_all Not (drop ?n ?t)"
      and sum: "sem_xfer_count (minfo info) + bitmap_weight ?t = ?n"
      and slots: "\<forall>j < ?n. slot_ok (desc info) (?t ! j \<and> j \<notin> set (pending calls)) j
           (xfer_block (minfo info) ! j)"
      and cs: "\<forall>c \<in> set calls. call_ok info c"
      unfolding fine_inv_iff by blast+
    from i n have il: "?i < length ?t" by linarith
    from i n have "?i < length (take ?n ?t)" by simp
    then have "\<not> take ?n ?t ! ?i" by (rule first_zero_clear)
    with i have free: "\<not> ?t ! ?i" by simp
    have w: "bitmap_weight (?t[?i := True]) = Suc (bitmap_weight ?t)"
      using il free by (rule bitmap_weight_set)
    have clr': "list_all Not (drop ?n (?t[?i := True]))"
      using clr i by (rule drop_update_clear)
    have slot': "slot_ok (desc info) (?t[?i := True] ! j \<and> j \<notin> set (pending (?c # calls))) j
        (xfer_block (minfo info) ! j)" if j: "j < ?n" for j
    proof (cases "j = ?i")
      case True
      from slots j have "slot_ok (desc info) (?t ! j \<and> j \<notin> set (pending calls)) j
           (xfer_block (minfo info) ! j)" by blast
      then have "slot_ok (desc info) False j (xfer_block (minfo info) ! j)"
        by (rule slot_ok_unheld)
      with True show ?thesis by (simp add: pending_def)
    next
      case False
      from slots j have "slot_ok (desc info) (?t ! j \<and> j \<notin> set (pending calls)) j
           (xfer_block (minfo info) ! j)" by blast
      with False show ?thesis by (simp add: pending_def)
    qed
    have c': "call_ok ?info' c" if "c \<in> set (?c # calls)" for c
    proof (cases "c = ?c")
      case True
      with i il \<open>sizeof_hdr \<le> rx \<and> _\<close> show ?thesis by (simp add: call_ok_def)
    next
      case False
      with that cs have "call_ok info c" by auto
      then show ?thesis
        using il by (auto simp add: call_ok_def nth_list_update)
    qed
    have "fine_inv (?info', ?c # calls)"
      unfolding fine_inv_iff
      using n clr' sum sem w slot' c' by simp
    with st show ?thesis by simp
  qed
qed

lemma fine_step_fill:
  assumes inv: "fine_inv (info, calls)" and ok: "bit_pos \<in> set (pending calls)"
  shows "\<exists>s'. fine_step (info, calls) (Fill bit_pos) = Some s' \<and>
           fine_inv s' \<and> desc (fst s') = desc info"
proof -
  let ?n = "nat (sint (max_msgs (desc info)))" and ?t = "xfer_alloc_table (minfo info)"
  from ok obtain c where f: "find (\<lambda>c. call_bit_pos c = bit_pos) calls = Some c"
    by (cases "find (\<lambda>c. call_bit_pos c = bit_pos) calls")
      (auto simp: pending_def find_None_iff)
  then have cin: "c \<in> set calls" and cp: "call_bit_pos c = bit_pos"
    by (auto simp: find_Some_iff)
  from inv have n: "0 \<le> sint (max_msgs (desc info))" "sint (max_msgs (desc info)) < 256"
    "0 < sint (max_msgs (desc info)) \<longrightarrow> 0 \<le> sint (max_msg_size (desc info))"
    "length (xfer_block (minfo info)) = ?n" "?n \<le> length ?t"
    and clr: "list_all Not (drop ?n ?t)"
    and sum: "sem_xfer_count (minfo info) + bitmap_weight ?t = ?n"
    and slots: "\<forall>j < ?n. slot_ok (desc info) (?t ! j \<and> j \<notin> set (pending calls)) j
         (xfer_block (minfo info) ! j)"
    and cs: "\<forall>c \<in> set calls. call_ok info c"
    unfolding fine_inv_iff by blast+
  from cs cin cp have p: "bit_pos < ?n" "?t ! bit_pos"
    and rx: "sizeof_hdr \<le> call_rx_message_size c"
      "call_rx_message_size c \<le> size_t_of_int (max_msg_size (desc info))"
    by (auto simp: call_ok_def)
  from p n have pm: "bit_pos mod 256 = bit_pos" "bit_pos < length (xfer_block (minfo info))"
    by simp_all
  let ?x = "xfer_block (minfo info) ! bit_pos"
  from slots p have sl: "slot_ok (desc info) (?t ! bit_pos \<and> bit_pos \<notin> set (pending calls)) bit_pos ?x"
    by blast
  then have len: "length (xfer_buf ?x) = size_t_of_int (max_msg_size (desc info))"
    by (simp add: slot_ok_def)
  with rx have hl: "sizeof_hdr \<le> length (xfer_buf ?x)" by simp
  let ?x' = "?x\<lparr>tx_message_len := call_tx_message_size c,
                rx_len := call_rx_message_size c mod 256,
                xfer_done := reinit_completion (xfer_done ?x),
                xfer_buf := hdr_set_flags (call_msg_flags c) (hdr_set_host (host_id (desc info))
                  (hdr_set_type (call_msg_type c) (hdr_set_seq (of_nat bit_pos) (xfer_buf ?x))))\<rparr>"
  let ?calls' = "filter (\<lambda>c. call_bit_pos c \<noteq> bit_pos) calls"
  have st: "fine_step (info, calls) (Fill bit_pos) = Some (xfer_store bit_pos ?x' info, ?calls')"
    using f pm hl by (simp add: ti_sci_get_one_xfer_fill_def xfer_at_def Let_def)
  have pend': "set (pending ?calls') = set (pending calls) - {bit_pos}"
    by (auto simp: pending_def)
  have iw: "unat (word_of_nat bit_pos :: u8) = bit_pos"
    using p n by (simp add: unat_of_nat)
  have "call_rx_message_size c mod 256 \<le> call_rx_message_size c" by simp
  moreover have "sizeof_hdr \<le> call_rx_message_size c mod 256"
    if "size_t_of_int (max_msg_size (desc info)) < 256"
    using that rx by simp
  ultimately have new: "slot_ok (desc info) True bit_pos ?x'"
    using len rx iw hl by (simp add: slot_ok_def hdr_seq_stamp)
  have slot': "slot_ok (desc info) (?t ! j \<and> j \<notin> set (pending ?calls')) j
      (xfer_block (minfo (xfer_store bit_pos ?x' info)) ! j)" if j: "j < ?n" for j
  proof (cases "j = bit_pos")
    case True
    with new p pm show ?thesis
      by (simp add: pend' xfer_store_def)
  next
    case False
    from slots j have "slot_ok (desc info) (?t ! j \<and> j \<notin> set (pending calls)) j
         (xfer_block (minfo info) ! j)" by blast
    with False show ?thesis
      by (simp add: pend' xfer_store_def)
  qed
  have c': "call_ok (xfer_store bit_pos ?x' info) c" if "c \<in> set ?calls'" for c
    using that cs by (auto simp: call_ok_def xfer_store_def)
  have "fine_inv (xfer_store bit_pos ?x' info, ?calls')"
    unfolding fine_inv_iff
    using n clr sum slot' c' by (simp add: xfer_store_def)
  with st show ?thesis by (simp add: xfer_store_def)
qed

lemma fine_held:
  assumes inv: "fine_inv (info, calls)" and h: "holds (info, calls) i"
  shows "i < nat (sint (max_msgs (desc info)))" "i < length (xfer_block (minfo info))"
    "i < length (xfer_alloc_table (minfo info))" "xfer_alloc_table (minfo info) ! i"
    "i \<notin> set (pending calls)"
    "slot_ok (desc info) True i (xfer_block (minfo info) ! i)"
proof -
  let ?n = "nat (sint (max_msgs (desc info)))" and ?t = "xfer_alloc_table (minfo info)"
  from h show b: "i < length ?t" "?t ! i" and np: "i \<notin> set (pending calls)"
    by (simp_all add: holds_def test_bit_def split: if_splits)
  from inv have n: "length (xfer_block (minfo info)) = ?n"
    and clr: "list_all Not (drop ?n ?t)"
    and slots: "\<forall>j < ?n. slot_ok (desc info) (?t ! j \<and> j \<notin> set (pending calls)) j
         (xfer_block (minfo info) ! j)"
    unfolding fine_inv_iff by blast+
  from clr b show i: "i < ?n" by (rule beyond_clear)
  with n show "i < length (xfer_block (minfo info))" by simp
  from slots i b np show "slot_ok (desc info) True i (xfer_block (minfo info) ! i)" by auto
qed

lemma fine_step_release:
  assumes inv: "fine_inv (info, calls)" and h: "holds (info, calls) i"
  shows "\<exists>s'. fine_step (info, calls) (Release i) = Some s' \<and>
           fine_inv s' \<and> desc (fst s') = desc info"
proof -
  let ?n = "nat (sint (max_msgs (desc info)))" and ?t = "xfer_alloc_table (minfo info)"
  note a = fine_held [OF inv h]
  from a(6) have seq: "unat (hdr_seq (xfer_buf (xfer_block (minfo info) ! i))) = i"
    and hl: "sizeof_hdr \<le> length (xfer_buf (xfer_block (minfo info) ! i))"
    by (simp_all add: slot_ok_def)
  let ?mi = "(minfo info)\<lparr>xfer_alloc_table := ?t[i := False],
                           sem_xfer_count := sem_xfer_count (minfo info) + 1\<rparr>"
  have st: "ti_sci_put_one_xfer (minfo info) i = Some ?mi"
    using a(2,3) seq hl
    by (simp add: ti_sci_put_one_xfer_def xfer_at_def clear_bit_def up_def sizeof_hdr_def Let_def)
  from inv have n: "0 \<le> sint (max_msgs (desc info))" "sint (max_msgs (desc info)) < 256"
    "0 < sint (max_msgs (desc info)) \<longrightarrow> 0 \<le> sint (max_msg_size (desc info))"
    "length (xfer_block (minfo info)) = ?n" "?n \<le> length ?t"
    and clr: "list_all Not (drop ?n ?t)"
    and sum: "sem_xfer_count (minfo info) + bitmap_weight ?t = ?n"
    and slots: "\<forall>j < ?n. slot_ok (desc info) (?t ! j \<and> j \<notin> set (pending calls)) j
         (xfer_block (minfo info) ! j)"
    and cs: "\<forall>c \<in> set calls. call_ok info c"
    unfolding fine_inv_iff by blast+
  have w: "Suc (bitmap_weight (?t[i := False])) = bitmap_weight ?t"
    using a(3,4) by (rule bitmap_weight_clear)
  have clr': "list_all Not (drop ?n (?t[i := False]))"
    using clr a(1) by (rule drop_update_clear)
  have slot': "slot_ok (desc info) (?t[i := False] ! j \<and> j \<notin> set (pending calls)) j
      (xfer_block (minfo info) ! j)" if j: "j < ?n" for j
  proof (cases "j = i")
    case True
    from a(6) have "slot_ok (desc info) False i (xfer_block (minfo info) ! i)"
      by (rule slot_ok_unheld)
    with True a(3) show ?thesis by simp
  next
    case False
    from slots j have "slot_ok (desc info) (?t ! j \<and> j \<notin> set (pending calls)) j
         (xfer_block (minfo info) ! j)" by blast
    with False show ?thesis by simp
  qed
  have c': "call_ok (info\<lparr>minfo := ?mi\<rparr>) c" if c: "c \<in> set calls" for c
  proof -
    from c cs have ok: "call_ok info c" by blast
    from c a(5) have "call_bit_pos c \<noteq> i" by (auto simp: pending_def)
    with ok show ?thesis by (simp add: call_ok_def)
  qed
  have "fine_inv (info\<lparr>minfo := ?mi\<rparr>, calls)"
    unfolding fine_inv_iff
    using n clr' sum w slot' c' by simp
  with st show ?thesis by simp
qed

lemma fine_rx_callback:
  assumes inv: "fine_inv (info, calls)" and ok: "msg_ok info m"
  shows "\<exists>l info'. ti_sci_rx_callback info m = Some (l, info') \<and> fine_inv (info', calls)"
proof -
  let ?n = "nat (sint (max_msgs (desc info)))" and ?t = "xfer_alloc_table (minfo info)"
  let ?i = "unat (hdr_seq (buf m))"
  let ?x = "xfer_block (minfo info) ! ?i"
  from ok have m: "sizeof_hdr \<le> length (buf m)" "len m \<le> length (buf m)" "?i < length ?t"
    by (simp_all add: msg_ok_def)
  from inv have n: "0 \<le> sint (max_msgs (desc info))" "sint (max_msgs (desc info)) < 256"
    "0 < sint (max_msgs (desc info)) \<longrightarrow> 0 \<le> sint (max_msg_size (desc info))"
    "length (xfer_block (minfo info)) = ?n" "?n \<le> length ?t"
    and clr: "list_all Not (drop ?n ?t)"
    and sum: "sem_xfer_count (minfo info) + bitmap_weight ?t = ?n"
    and slots: "\<forall>j < ?n. slot_ok (desc info) (?t ! j \<and> j \<notin> set (pending calls)) j
         (xfer_block (minfo info) ! j)"
    and cs: "\<forall>c \<in> set calls. call_ok info c"
    unfolding fine_inv_iff by blast+
  show ?thesis
  proof (cases "?t ! ?i \<and> \<not> len m > size_t_of_int (max_msg_size (desc info)) \<and>
      \<not> len m < rx_len ?x")
    case False
    then have "\<exists>l. ti_sci_rx_callback info m = Some (l, info)"
    proof (cases "?t ! ?i")
      case False
      with m show ?thesis
        by (simp add: ti_sci_rx_callback_def test_bit_def sizeof_hdr_def)
    next
      case True
      from clr m(3) True have "?i < ?n" by (rule beyond_clear)
      with n True m False show ?thesis
        by (auto simp add: ti_sci_rx_callback_def test_bit_def sizeof_hdr_def xfer_at_def Let_def)
    qed
    with inv show ?thesis by blast
  next
    case True
    from clr m(3) conjunct1 [OF True] have i: "?i < ?n" by (rule beyond_clear)
    from slots i have sl: "slot_ok (desc info) (?t ! ?i \<and> ?i \<notin> set (pending calls)) ?i ?x"
      by blast
    then have rl: "rx_len ?x \<le> length (xfer_buf ?x)" by (simp add: slot_ok_def)
    let ?b = "take (rx_len ?x) (buf m) @ drop (rx_len ?x) (xfer_buf ?x)"
    let ?x' = "?x\<lparr>xfer_buf := ?b, xfer_done := complete (xfer_done ?x)\<rparr>"
    from True m rl have rm: "rx_len ?x \<le> length (buf m)" by linarith
    have st: "ti_sci_rx_callback info m = Some ([], xfer_store ?i ?x' info)"
      using True m i n rl rm
      by (simp add: ti_sci_rx_callback_def test_bit_def sizeof_hdr_def xfer_at_def memcpy_def
          Let_def)
    have bl: "length ?b = length (xfer_buf ?x)" using rl rm by simp
    have b3: "?b ! 3 = (if 3 < rx_len ?x then buf m ! 3 else xfer_buf ?x ! 3)"
      using rl rm m(1) by (auto simp: nth_append sizeof_hdr_def)
    have new: "slot_ok (desc info) (?t ! ?i \<and> ?i \<notin> set (pending calls)) ?i ?x'"
    proof -
      have "unat (hdr_seq ?b) = ?i" if "unat (hdr_seq (xfer_buf ?x)) = ?i"
        using that b3 by (simp add: hdr_seq_def)
      with sl bl show ?thesis
        by (auto simp add: slot_ok_def)
    qed
    have slot': "slot_ok (desc info) (?t ! j \<and> j \<notin> set (pending calls)) j
        (xfer_block (minfo (xfer_store ?i ?x' info)) ! j)" if j: "j < ?n" for j
    proof (cases "j = ?i")
      case True
      with new i n show ?thesis by (simp add: xfer_store_def)
    next
      case False
      from slots j have "slot_ok (desc info) (?t ! j \<and> j \<notin> set (pending calls)) j
           (xfer_block (minfo info) ! j)" by blast
      with False show ?thesis by (simp add: xfer_store_def)
    qed
    have c': "call_ok (xfer_store ?i ?x' info) c" if "c \<in> set calls" for c
      using that cs by (auto simp: call_ok_def xfer_store_def)
    have "fine_inv (xfer_store ?i ?x' info, calls)"
      unfolding fine_inv_iff
      using n clr sum slot' c' by (simp add: xfer_store_def)
    with st show ?thesis by blast
  qed
qed

lemma fine_rx_callbacks:
  "fine_inv (info, calls) \<Longrightarrow> list_all (msg_ok info) ms \<Longrightarrow>
   \<exists>info'. rx_callbacks info ms = Some info' \<and> fine_inv (info', calls) \<and>
     desc info' = desc info \<and>
     xfer_alloc_table (minfo info') = xfer_alloc_table (minfo info)"
proof (induction ms arbitrary: info)
  case Nil
  then show ?case by simp
next
  case (Cons m ms)
  from Cons.prems have "msg_ok info m" by simp
  from fine_rx_callback [OF Cons.prems(1) this] obtain l info1
    where r: "ti_sci_rx_callback info m = Some (l, info1)" and i: "fine_inv (info1, calls)"
    by blast
  from rx_callback_frame(3) [OF r] have "msg_ok info1 = msg_ok info"
    by (simp add: msg_ok_def fun_eq_iff)
  with Cons.prems(2) have "list_all (msg_ok info1) ms" by simp
  from Cons.IH [OF i this] r rx_callback_frame(1,3) [OF r] show ?case by simp
qed

lemma fine_xfer_done:
  assumes "fine_inv (info, calls)" "i < length (xfer_block (minfo info))"
  shows "fine_inv (xfer_store i ((xfer_block (minfo info) ! i)\<lparr>xfer_done := d\<rparr>) info, calls)"
  using assms unfolding fine_inv_iff
  by (auto simp: xfer_store_def nth_list_update slot_ok_def call_ok_def)

lemma fine_step_exchange:
  assumes inv: "fine_inv (info, calls)" and h: "holds (info, calls) i"
    and ms: "list_all (msg_ok info) ms"
  shows "\<exists>s'. fine_step (info, calls) (Exchange i s ms) = Some s' \<and>
           fine_inv s' \<and> desc (fst s') = desc info"
proof (cases "s < 0")
  case True
  with inv show ?thesis by (simp add: ti_sci_do_xfer_def)
next
  case False
  from fine_rx_callbacks [OF inv ms] obtain info1 where r: "rx_callbacks info ms = Some info1"
    and i1: "fine_inv (info1, calls)" and d: "desc info1 = desc info"
    and t: "xfer_alloc_table (minfo info1) = xfer_alloc_table (minfo info)"
    by blast
  from h t have "holds (info1, calls) i" by (simp add: holds_def)
  from fine_held(2) [OF i1 this] have l: "i < length (xfer_block (minfo info1))" .
  from fine_xfer_done [OF i1 l] False r l d show ?thesis
    by (simp add: ti_sci_do_xfer_def xfer_at_def Let_def xfer_store_def split: prod.splits)
qed

lemma fine_step_read_version:
  assumes inv: "fine_inv (info, calls)" and h: "holds (info, calls) i"
    and big: "sizeof_resp_version \<le> size_t_of_int (max_msg_size (desc info))"
  shows "\<exists>s'. fine_step (info, calls) (Read_version i) = Some s' \<and>
           fine_inv s' \<and> desc (fst s') = desc info"
proof -
  note a = fine_held [OF inv h]
  from a(6) big have "sizeof_resp_version \<le> length (xfer_buf (xfer_block (minfo info) ! i))"
    by (simp add: slot_ok_def)
  with a(2) obtain info' v where c: "copy_version info i = Some info'"
    and i': "info' = info\<lparr>version := v\<rparr>"
    by (simp add: copy_version_def xfer_at_def Let_def)
  from inv have "fine_inv (info', calls)"
    unfolding i' fine_inv_iff by (simp add: call_ok_def)
  with c i' show ?thesis by simp
qed

lemma fine_step_inv:
  assumes inv: "fine_inv s" and ok: "fine_op_ok s x"
  shows "\<exists>s'. fine_step s x = Some s' \<and> fine_inv s' \<and> desc (fst s') = desc (fst s)"
proof -
  obtain info calls where s: "s = (info, calls)" by (cases s)
  show ?thesis
  proof (cases x)
    case (Take msg_type msg_flags tx rx)
    with fine_step_take [OF inv [unfolded s]] s show ?thesis by simp
  next
    case (Fill bit_pos)
    with ok s fine_step_fill [OF inv [unfolded s], of bit_pos] show ?thesis by simp
  next
    case (Exchange i r ms)
    with ok s fine_step_exchange [OF inv [unfolded s], of i ms r] show ?thesis by simp
  next
    case (Read_version i)
    with ok s fine_step_read_version [OF inv [unfolded s], of i] show ?thesis by simp
  next
    case (Release i)
    with ok s fine_step_release [OF inv [unfolded s], of i] show ?thesis by simp
  next
    case (Deliver m)
    with ok s have "msg_ok info m" by simp
    from fine_rx_callback [OF inv [unfolded s] this] obtain l info'
      where r: "ti_sci_rx_callback info m = Some (l, info')" and i: "fine_inv (info', calls)"
      by blast
    with Deliver s rx_callback_frame(1) [OF r] show ?thesis by simp
  qed
qed

lemma fine_run_inv:
  "fine_inv s \<Longrightarrow> fine_contract s ops \<Longrightarrow>
   \<exists>s'. fine_run s ops = Some s' \<and> fine_inv s' \<and> desc (fst s') = desc (fst s)"
proof (induction ops arbitrary: s)
  case Nil
  then show ?case by simp
next
  case (Cons x xs)
  from Cons.prems have ok: "fine_op_ok s x" by simp
  with Cons.prems(1) obtain s1 where st: "fine_step s x = Some s1" and i: "fine_inv s1"
    and d: "desc (fst s1) = desc (fst s)"
    using fine_step_inv by blast
  from Cons.prems(2) st have "fine_contract s1 xs" by simp
  with i Cons.IH obtain s' where "fine_run s1 xs = Some s'" "fine_inv s'"
    "desc (fst s') = desc (fst s1)" by blast
  with st d show ?case by simp
qed

lemma probe_pool_inv:
  assumes "ti_sci_probe_pool env = Inr info"
  shows "fine_inv (info, [])"
proof -
  from assms obtain d block where n: "0 \<le> sint (max_msgs d)" "sint (max_msgs d) < 256"
    and blk: "init_xfers (env_kcalloc_xfer_buf env) (max_msg_size d) 0
                (replicate (size_t_of_int (max_msgs d)) zeroed_xfer) = Some block"
    and info: "info = \<lparr>desc = d, version = zeroed_version,
            minfo = \<lparr>sem_xfer_count = nat (sint (max_msgs d)), xfer_block = block,
                     xfer_alloc_table =
                       replicate (BITS_TO_LONGS (size_t_of_int (max_msgs d)) * BITS_PER_LONG) False\<rparr>\<rparr>"
    by (auto simp: ti_sci_probe_pool_def sizeof_hdr_seq_def split: option.splits if_splits)
  have "ti_sci_inv info" unfolding info using n blk by (rule inv_probe_alloc)
  then show ?thesis by (simp add: fine_inv_no_calls)
qed

lemma fine_reached_inv:
  assumes "fine_reached env ops = Some (info, calls)"
  shows "fine_inv (info, calls)"
proof -
  from assms obtain info0 where p: "ti_sci_probe_pool env = Inr info0"
    and c: "fine_contract (info0, []) ops" and r: "fine_run (info0, []) ops = Some (info, calls)"
    by (auto simp: fine_reached_def split: sum.splits if_splits)
  from fine_run_inv [OF probe_pool_inv [OF p] c] r show ?thesis by auto
qed

subsection \<open>Facts the claims share\<close>

lemma hdr_get_set:
  assumes "sizeof_hdr \<le> length b"
  shows "hdr_type (hdr_set_flags fl (hdr_set_host h (hdr_set_type ty (hdr_set_seq s b)))) = ty"
    "hdr_host (hdr_set_flags fl (hdr_set_host h (hdr_set_type ty (hdr_set_seq s b)))) = h"
    "hdr_flags (hdr_set_flags fl (hdr_set_host h (hdr_set_type ty (hdr_set_seq s b)))) = fl"
proof -
  have t: "word_cat (ucast (drop_bit 8 ty) :: u8) (ucast ty :: u8) = ty" for ty :: u16
    by (rule bit_word_eqI) (auto simp: bit_simps)
  have f: "word_cat (ucast (drop_bit 24 fl) :: u8)
             (word_cat (ucast (drop_bit 16 fl) :: u8)
               (word_cat (ucast (drop_bit 8 fl) :: u8) (ucast fl :: u8) :: u16) :: 24 word) = fl"
    for fl :: u32
    by (rule bit_word_eqI) (auto simp: bit_simps)
  from assms have "b \<noteq> []" by (auto simp: sizeof_hdr_def)
  with assms show "hdr_type (hdr_set_flags fl (hdr_set_host h (hdr_set_type ty (hdr_set_seq s b)))) = ty"
    by (simp add: hdr_type_def hdr_set_flags_def hdr_set_host_def hdr_set_type_def hdr_set_seq_def
        sizeof_hdr_def t)
  from assms show "hdr_host (hdr_set_flags fl (hdr_set_host h (hdr_set_type ty (hdr_set_seq s b)))) = h"
    by (simp add: hdr_host_def hdr_set_flags_def hdr_set_host_def hdr_set_type_def hdr_set_seq_def
        sizeof_hdr_def)
  from assms show "hdr_flags (hdr_set_flags fl (hdr_set_host h (hdr_set_type ty (hdr_set_seq s b)))) = fl"
    by (simp add: hdr_flags_def hdr_set_flags_def hdr_set_host_def hdr_set_type_def hdr_set_seq_def
        sizeof_hdr_def f)
qed

lemma inv_index:
  assumes "ti_sci_inv info" "i < nat (sint (max_msgs (desc info)))"
  shows "i < length (xfer_alloc_table (minfo info))" "i < length (xfer_block (minfo info))"
    "i < 256"
    "slot_inv (desc info) (xfer_alloc_table (minfo info)) i (xfer_block (minfo info) ! i)"
proof -
  from assms(1) have n: "sint (max_msgs (desc info)) < 256"
    "length (xfer_block (minfo info)) = nat (sint (max_msgs (desc info)))"
    "nat (sint (max_msgs (desc info))) \<le> length (xfer_alloc_table (minfo info))"
    and s: "\<forall>i < nat (sint (max_msgs (desc info))).
         slot_inv (desc info) (xfer_alloc_table (minfo info)) i (xfer_block (minfo info) ! i)"
    unfolding ti_sci_inv_iff by blast+
  from n assms(2) show "i < length (xfer_alloc_table (minfo info))"
    "i < length (xfer_block (minfo info))" "i < 256"
    by linarith+
  from s assms(2) show "slot_inv (desc info) (xfer_alloc_table (minfo info)) i
      (xfer_block (minfo info) ! i)" by blast
qed

lemma get_one_xfer_Inr_slot:
  assumes reach: "reached env ops = Some info"
    and get: "ti_sci_get_one_xfer info msg_type msg_flags tx rx = Some (Inr i, info')"
  shows "i < nat (sint (max_msgs (desc info))) \<and>
         \<not> xfer_alloc_table (minfo info) ! i \<and>
         (\<forall>j<i. xfer_alloc_table (minfo info) ! j) \<and>
         xfer_alloc_table (minfo info') = (xfer_alloc_table (minfo info))[i := True] \<and>
         test_bit i (xfer_alloc_table (minfo info')) = Some True \<and>
         0 < sem_xfer_count (minfo info) \<and>
         sem_xfer_count (minfo info') = sem_xfer_count (minfo info) - 1 \<and>
         unat (hdr_seq (xfer_buf (xfer_block (minfo info') ! i))) = i \<and>
         xfer_done (xfer_block (minfo info') ! i) = 0"
proof -
  from reach have inv: "ti_sci_inv info" by (rule reached_inv)
  note g = get_one_xfer_Inr [OF inv get]
  note l = inv_index [OF inv g(7)]
  have bit: "test_bit i (xfer_alloc_table (minfo info')) = Some True"
    using l unfolding g(2) by (simp add: got_fields test_bit_def)
  from inv_allocated(6) [OF g(10) bit]
  have seq: "unat (hdr_seq (xfer_buf (xfer_block (minfo info') ! i))) = i" .
  have dn: "xfer_done (xfer_block (minfo info') ! i) = 0"
    using l unfolding g(2) by (simp add: got_def xfer_store_def)
  from g(7,8,9,3) bit seq dn show ?thesis
    unfolding g(2) by (simp add: got_fields)
qed

lemma gate_credit_gives_free_slot:
  assumes reach: "reached env ops = Some info"
    and sem: "0 < sem_xfer_count (minfo info)"
  shows "\<exists>j < nat (sint (max_msgs (desc info))). \<not> xfer_alloc_table (minfo info) ! j"
proof -
  from reach have inv: "ti_sci_inv info" by (rule reached_inv)
  let ?n = "nat (sint (max_msgs (desc info)))" and ?t = "xfer_alloc_table (minfo info)"
  from inv_free_slot [OF inv sem] have i: "first_zero (take ?n ?t) < ?n" .
  from inv have "?n \<le> length ?t" by (simp add: ti_sci_inv_iff)
  with i have "first_zero (take ?n ?t) < length (take ?n ?t)" by simp
  then have "\<not> take ?n ?t ! first_zero (take ?n ?t)" by (rule first_zero_clear)
  with i show ?thesis by auto
qed

lemma rx_callback_expected_aux:
  assumes inv: "ti_sci_inv info" and pos: "0 \<le> sint (max_msg_size (desc info))"
    and m: "3 < length (buf m)" "len m \<le> length (buf m)"
    and bit: "test_bit (unat (hdr_seq (buf m))) (xfer_alloc_table (minfo info)) = Some True"
  shows "ti_sci_rx_callback info m =
           (let i = unat (hdr_seq (buf m)); xfer = xfer_block (minfo info) ! i in
            if int (len m) \<le> sint (max_msg_size (desc info)) \<and> rx_len xfer \<le> len m
            then Some ([], xfer_store i
                   (xfer\<lparr>xfer_buf := take (rx_len xfer) (buf m) @ drop (rx_len xfer) (xfer_buf xfer),
                          xfer_done := xfer_done xfer + 1\<rparr>) info)
            else Some ([if int (len m) > sint (max_msg_size (desc info))
                        then Unable_to_handle_xfer (len m) (max_msg_size (desc info))
                        else Recv_xfer_less_than_expected (len m) (rx_len xfer)], info))"
    and "int (rx_len (xfer_block (minfo info) ! unat (hdr_seq (buf m)))) \<le> sint (max_msg_size (desc info))"
proof -
  let ?i = "unat (hdr_seq (buf m))"
  note a = inv_allocated [OF inv bit]
  have sz: "size_t_of_int (max_msg_size (desc info)) = nat (sint (max_msg_size (desc info)))"
    using pos by (rule size_t_of_int_nat)
  from inv_index(4) [OF inv a(1)]
  have len: "length (xfer_buf (xfer_block (minfo info) ! ?i)) = nat (sint (max_msg_size (desc info)))"
    by (simp add: slot_inv_def sz)
  with a(7) pos show "int (rx_len (xfer_block (minfo info) ! ?i)) \<le> sint (max_msg_size (desc info))"
    by linarith
  have gt: "len m > nat (sint (max_msg_size (desc info))) \<longleftrightarrow>
      int (len m) > sint (max_msg_size (desc info))"
    using pos by linarith
  show "ti_sci_rx_callback info m =
           (let i = unat (hdr_seq (buf m)); xfer = xfer_block (minfo info) ! i in
            if int (len m) \<le> sint (max_msg_size (desc info)) \<and> rx_len xfer \<le> len m
            then Some ([], xfer_store i
                   (xfer\<lparr>xfer_buf := take (rx_len xfer) (buf m) @ drop (rx_len xfer) (xfer_buf xfer),
                          xfer_done := xfer_done xfer + 1\<rparr>) info)
            else Some ([if int (len m) > sint (max_msg_size (desc info))
                        then Unable_to_handle_xfer (len m) (max_msg_size (desc info))
                        else Recv_xfer_less_than_expected (len m) (rx_len xfer)], info))"
    using m bit a(2,7)
    by (auto simp: ti_sci_rx_callback_def Let_def xfer_at_def memcpy_def complete_def sz gt)
qed

lemma cmd_get_revision_codes:
  assumes "ti_sci_cmd_get_revision info s ms = Some (ret, info')"
  shows "ret = 0 \<or> ret = - ERANGE \<or> ret = - ETIME \<or> ret = - ETIMEDOUT \<or> (ret = s \<and> s < 0)"
proof -
  from assms obtain r info1 where
    get: "ti_sci_get_one_xfer info TI_SCI_MSG_VERSION 0 sizeof_hdr sizeof_resp_version = Some (r, info1)"
    by (auto simp: ti_sci_cmd_get_revision_def split: option.splits)
  show ?thesis
  proof (cases r)
    case (Inl e)
    with get have "e = - ERANGE \<or> e = - ETIME"
      by (auto simp: ti_sci_get_one_xfer_def down_timeout_def Let_def
          split: if_splits option.splits)
    with Inl get assms show ?thesis by (auto simp: ti_sci_cmd_get_revision_def)
  next
    case (Inr i)
    with get assms obtain info2 where "ti_sci_do_xfer info1 i s ms = Some (ret, info2)"
      by (auto simp: ti_sci_cmd_get_revision_def Let_def split: option.splits if_splits)
    then show ?thesis
      by (auto simp: ti_sci_do_xfer_def Let_def split: if_splits option.splits prod.splits)
  qed
qed

text \<open>
  The two K2G instances written out: after probe the first slot holds the version reply,
  every other slot is as the allocator left it, and all credits are back; in \<open>k2g_held\<close>
  the first slot is taken again. Evaluations below start from these equations.
\<close>

lemma k2g_info_code [code]:
  "k2g_info =
     \<lparr>desc = ti_sci_pmmc_k2g_desc,
      version =
        \<lparr>abi_major = 3, abi_minor = 4, firmware_revision = 1,
         firmware_description = replicate 32 65\<rparr>,
      minfo =
        \<lparr>sem_xfer_count = 128,
         xfer_block =
           \<lparr>tx_message_len = 8, rx_len = 44,
            xfer_buf = [2, 0, 2, 0, 0, 0, 0, 0] @ replicate 32 65 @ [1, 0, 3, 4] @ replicate 20 0,
            xfer_done = 0\<rparr> #
           replicate 127 \<lparr>tx_message_len = 0, rx_len = 0, xfer_buf = replicate 64 0, xfer_done = 0\<rparr>,
         xfer_alloc_table = replicate 128 False\<rparr>\<rparr>"
  by code_simp

lemma k2g_held_code [code]:
  "k2g_held =
     \<lparr>desc = ti_sci_pmmc_k2g_desc,
      version =
        \<lparr>abi_major = 3, abi_minor = 4, firmware_revision = 1,
         firmware_description = replicate 32 65\<rparr>,
      minfo =
        \<lparr>sem_xfer_count = 127,
         xfer_block =
           \<lparr>tx_message_len = 8, rx_len = 44,
            xfer_buf = [2, 0, 2, 0, 0, 0, 0, 0] @ replicate 32 65 @ [1, 0, 3, 4] @ replicate 20 0,
            xfer_done = 0\<rparr> #
           replicate 127 \<lparr>tx_message_len = 0, rx_len = 0, xfer_buf = replicate 64 0, xfer_done = 0\<rparr>,
         xfer_alloc_table = True # replicate 127 False\<rparr>\<rparr>"
  by code_simp

lemma k2g_info_reached: "reached k2g_env [] = Some k2g_info"
  by code_simp

lemma k2g_held_reached: "reached k2g_env [Get TI_SCI_MSG_VERSION 0 8 44] = Some k2g_held"
  by code_simp

text \<open>
  The K2G instance while probe's allocation is in progress, written out, and the run of
  the driver that leads to \<open>k2g_held\<close>.
\<close>

lemma k2g_taking_code [code]:
  "k2g_taking =
     \<lparr>desc = ti_sci_pmmc_k2g_desc, version = zeroed_version,
      minfo =
        \<lparr>sem_xfer_count = 127,
         xfer_block =
           replicate 128
             \<lparr>tx_message_len = 0, rx_len = 0, xfer_buf = replicate 64 0, xfer_done = 0\<rparr>,
         xfer_alloc_table = True # replicate 127 False\<rparr>\<rparr>"
  by code_simp

lemma k2g_taking_done_code [code]:
  "k2g_taking_done =
     \<lparr>desc = ti_sci_pmmc_k2g_desc, version = zeroed_version,
      minfo =
        \<lparr>sem_xfer_count = 127,
         xfer_block =
           \<lparr>tx_message_len = 0, rx_len = 0, xfer_buf = replicate 64 0, xfer_done = 1\<rparr> #
           replicate 127
             \<lparr>tx_message_len = 0, rx_len = 0, xfer_buf = replicate 64 0, xfer_done = 0\<rparr>,
         xfer_alloc_table = True # replicate 127 False\<rparr>\<rparr>"
  by code_simp

lemma k2g_held_fine_reached:
  "fine_reached k2g_env (probe_ops @ [Take TI_SCI_MSG_VERSION 0 8 44, Fill 0]) =
     Some (k2g_held, [])"
  by code_simp

section \<open>The claims\<close>

subsection \<open>The bound on allocated slots\<close>

text \<open>
  Claim C1. After a successful probe, along every run in which callers allocate, exchange
  and release under their contract while messages arrive, every step returns, and after
  every prefix of the run the number of set bits of the allocation table is at most
  \<open>max_msgs\<close>, and the semaphore count and the number of set bits add up to \<open>max_msgs\<close>:
  each credit taken from the semaphore is matched by one set bit and each cleared bit by
  one credit given back.
\<close>

theorem allocated_slots_bounded:
  assumes probe: "ti_sci_probe env = Some (ret, Some info)"
    and ops: "contract info ops"
  shows "\<exists>info'. run info (take k ops) = Some info' \<and>
           bitmap_weight (xfer_alloc_table (minfo info')) \<le> nat (sint (max_msgs (desc info'))) \<and>
           sem_xfer_count (minfo info') + bitmap_weight (xfer_alloc_table (minfo info')) =
             nat (sint (max_msgs (desc info'))) \<and>
           desc info' = desc info"
proof -
  from probe have "ti_sci_inv info" by (rule probe_inv)
  moreover from ops have "contract info (take k ops)" by (rule contract_take)
  ultimately obtain info' where "run info (take k ops) = Some info'" "ti_sci_inv info'"
    "desc info' = desc info"
    using run_inv by blast
  with inv_bound [of info'] show ?thesis by simp
qed

theorem allocated_slots_bounded_witness:
  "ti_sci_probe k2g_env = Some (0, Some k2g_info) \<and> contract k2g_info k2g_ops \<and>
   (\<exists>info'. run k2g_info (take 4 k2g_ops) = Some info' \<and>
      bitmap_weight (xfer_alloc_table (minfo info')) \<le> nat (sint (max_msgs (desc info'))) \<and>
      sem_xfer_count (minfo info') + bitmap_weight (xfer_alloc_table (minfo info')) =
        nat (sint (max_msgs (desc info'))) \<and>
      desc info' = desc k2g_info)"
proof -
  have p: "ti_sci_probe k2g_env = Some (0, Some k2g_info)"
    by code_simp
  have c: "contract k2g_info k2g_ops"
    by code_simp
  from allocated_slots_bounded [OF p c, of 4] p c show ?thesis
    by blast
qed

subsection \<open>Messages shorter than the header\<close>

text \<open>
  Claim C2, as the code has it. The callback has no check of the message length against
  the header size: it reads the sequence number from the fourth byte of the buffer
  whatever \<open>len\<close> is. In every state the driver is in from the moment probe has built the
  pool, allocations in progress included, with a \<open>max_msg_size\<close> below 256: a message
  shorter than the header, in a buffer that holds those four bytes, with a sequence number
  inside the table that does not name a slot whose allocation is still in progress (bit
  set, slot not yet filled in), is discarded with one error line and no change of state:
  as unexpected when the bit its sequence number names is clear, and as shorter than the
  expected reply when the bit is set.
\<close>

theorem rx_callback_short_message:
  assumes reach: "fine_reached env ops = Some (info, calls)"
    and small: "sint (max_msg_size (desc info)) < 256"
    and m: "3 < length (buf m)"
      "unat (hdr_seq (buf m)) < length (xfer_alloc_table (minfo info))"
    and short: "len m < sizeof_hdr"
    and returned: "unat (hdr_seq (buf m)) \<notin> set (pending calls)"
  shows "ti_sci_rx_callback info m =
           Some ([if xfer_alloc_table (minfo info) ! unat (hdr_seq (buf m))
                  then Recv_xfer_less_than_expected (len m)
                         (rx_len (xfer_block (minfo info) ! unat (hdr_seq (buf m))))
                  else Message_not_expected (unat (hdr_seq (buf m)))], info)"
proof (cases "xfer_alloc_table (minfo info) ! unat (hdr_seq (buf m))")
  case False
  with m show ?thesis
    by (simp add: ti_sci_rx_callback_def test_bit_def)
next
  case True
  let ?i = "unat (hdr_seq (buf m))"
  from reach have inv: "fine_inv (info, calls)" by (rule fine_reached_inv)
  from True m returned have h: "holds (info, calls) ?i"
    by (simp add: holds_def test_bit_def)
  note a = fine_held [OF inv h]
  from inv a(1) have pos: "0 \<le> sint (max_msg_size (desc info))"
    unfolding fine_inv_iff by linarith
  have sz: "size_t_of_int (max_msg_size (desc info)) = nat (sint (max_msg_size (desc info)))"
    using pos by (rule size_t_of_int_nat)
  from a(6) have "sizeof_hdr \<le> size_t_of_int (max_msg_size (desc info))"
    by (simp add: slot_ok_def)
  with short have le: "\<not> len m > size_t_of_int (max_msg_size (desc info))" by simp
  from a(6) small pos have "sizeof_hdr \<le> rx_len (xfer_block (minfo info) ! ?i)"
    by (simp add: slot_ok_def sz)
  with short have lt: "len m < rx_len (xfer_block (minfo info) ! ?i)" by simp
  from True m a(2) le lt show ?thesis
    by (simp add: ti_sci_rx_callback_def test_bit_def xfer_at_def)
qed

theorem rx_callback_short_message_witness:
  "fine_reached k2g_env (probe_ops @ [Take TI_SCI_MSG_VERSION 0 8 44, Fill 0]) =
     Some (k2g_held, []) \<and>
   sint (max_msg_size (desc k2g_held)) < 256 \<and>
   3 < length (buf (short_message 7)) \<and>
   unat (hdr_seq (buf (short_message 7))) < length (xfer_alloc_table (minfo k2g_held)) \<and>
   len (short_message 7) < sizeof_hdr \<and>
   unat (hdr_seq (buf (short_message 7))) \<notin> set (pending []) \<and>
   unat (hdr_seq (buf (short_message 0))) \<notin> set (pending []) \<and>
   ti_sci_rx_callback k2g_held (short_message 7) = Some ([Message_not_expected 7], k2g_held) \<and>
   ti_sci_rx_callback k2g_held (short_message 0) =
     Some ([Recv_xfer_less_than_expected 0 44], k2g_held)"
proof -
  have s: "sint (max_msg_size (desc k2g_held)) < 256"
    by code_simp
  have b: "3 < length (buf (short_message 7))" "3 < length (buf (short_message 0))"
    by code_simp+
  have t: "unat (hdr_seq (buf (short_message 7))) < length (xfer_alloc_table (minfo k2g_held))"
    "unat (hdr_seq (buf (short_message 0))) < length (xfer_alloc_table (minfo k2g_held))"
    by code_simp+
  have l: "len (short_message 7) < sizeof_hdr" "len (short_message 0) < sizeof_hdr"
    by code_simp+
  have r: "unat (hdr_seq (buf (short_message 7))) \<notin> set (pending [])"
    "unat (hdr_seq (buf (short_message 0))) \<notin> set (pending [])"
    by (simp_all add: pending_def)
  have v: "unat (hdr_seq (buf (short_message 7))) = 7"
    "\<not> xfer_alloc_table (minfo k2g_held) ! 7"
    "unat (hdr_seq (buf (short_message 0))) = 0"
    "xfer_alloc_table (minfo k2g_held) ! 0"
    "len (short_message 0) = 0" "rx_len (xfer_block (minfo k2g_held) ! 0) = 44"
    by code_simp+
  from rx_callback_short_message [OF k2g_held_fine_reached s b(1) t(1) l(1) r(1)]
    rx_callback_short_message [OF k2g_held_fine_reached s b(2) t(2) l(2) r(2)]
    k2g_held_fine_reached s b(1) t(1) l(1) r
  show ?thesis
    by (simp add: v)
qed

text \<open>
  On K2G with slot 0 held for a reply of 44 bytes, a message of length 0 is answered
  according to the byte at offset 3 of its buffer, beyond its length: not expected with
  7 there, too short with 0 there. While probe's own allocation is in progress on K2G, bit
  0 is set and \<open>rx_len\<close> of slot 0 is still the 0 of the allocator: the message of length
  0 is accepted and completes the slot. With a maximum message size of 512 and slot 0
  held for a reply of 256 bytes, \<open>rx_len\<close> is 0 after the cast to \<open>u8\<close>, and the message
  of length 0 completes the slot.
\<close>

theorem rx_callback_short_message_counterexample:
  "len (short_message 7) = 0 \<and> len (short_message 0) = 0 \<and>
   ti_sci_rx_callback k2g_held (short_message 7) = Some ([Message_not_expected 7], k2g_held) \<and>
   ti_sci_rx_callback k2g_held (short_message 0) =
     Some ([Recv_xfer_less_than_expected 0 44], k2g_held) \<and>
   fine_reached k2g_env [Take TI_SCI_MSG_VERSION 0 8 44] = Some (k2g_taking, [k2g_probe_call]) \<and>
   test_bit 0 (xfer_alloc_table (minfo k2g_taking)) = Some True \<and>
   rx_len (xfer_block (minfo k2g_taking) ! 0) = 0 \<and>
   xfer_done (xfer_block (minfo k2g_taking) ! 0) = 0 \<and>
   ti_sci_rx_callback k2g_taking (short_message 0) = Some ([], k2g_taking_done) \<and>
   xfer_done (xfer_block (minfo k2g_taking_done) ! 0) = 1 \<and>
   fine_reached wide_env (probe_ops @ [Take TI_SCI_MSG_VERSION 0 8 256, Fill 0]) =
     Some (wide_held, []) \<and>
   rx_len (xfer_block (minfo wide_held) ! 0) = 0 \<and>
   xfer_done (xfer_block (minfo wide_held) ! 0) = 0 \<and>
   ti_sci_rx_callback wide_held (short_message 0) = Some ([], wide_done) \<and>
   xfer_done (xfer_block (minfo wide_done) ! 0) = 1"
  by code_simp

subsection \<open>Expected arrivals\<close>

text \<open>
  Claim C3. In every state the driver reaches, for a message whose sequence number names
  a set bit (in a buffer that holds the bytes it announces): the message is accepted
  exactly when its length is at most \<open>max_msg_size\<close> and at least the slot's \<open>rx_len\<close>;
  then the first \<open>rx_len\<close> bytes of the slot's buffer are replaced by those of the
  message and the completion is signalled once; otherwise one error line is written and
  the state is unchanged. A message exactly \<open>rx_len\<close> long is accepted, one a byte
  shorter is discarded.
\<close>

theorem rx_callback_expected:
  assumes reach: "reached env ops = Some info"
    and m: "3 < length (buf m)" "len m \<le> length (buf m)"
    and bit: "test_bit (unat (hdr_seq (buf m))) (xfer_alloc_table (minfo info)) = Some True"
  shows "ti_sci_rx_callback info m =
           (let i = unat (hdr_seq (buf m)); xfer = xfer_block (minfo info) ! i in
            if int (len m) \<le> sint (max_msg_size (desc info)) \<and> rx_len xfer \<le> len m
            then Some ([], xfer_store i
                   (xfer\<lparr>xfer_buf := take (rx_len xfer) (buf m) @ drop (rx_len xfer) (xfer_buf xfer),
                          xfer_done := xfer_done xfer + 1\<rparr>) info)
            else Some ([if int (len m) > sint (max_msg_size (desc info))
                        then Unable_to_handle_xfer (len m) (max_msg_size (desc info))
                        else Recv_xfer_less_than_expected (len m) (rx_len xfer)], info)) \<and>
         (len m = rx_len (xfer_block (minfo info) ! unat (hdr_seq (buf m))) \<longrightarrow>
            (\<exists>info'. ti_sci_rx_callback info m = Some ([], info') \<and>
               xfer_done (xfer_block (minfo info') ! unat (hdr_seq (buf m))) =
                 xfer_done (xfer_block (minfo info) ! unat (hdr_seq (buf m))) + 1)) \<and>
         (len m + 1 = rx_len (xfer_block (minfo info) ! unat (hdr_seq (buf m))) \<longrightarrow>
            ti_sci_rx_callback info m =
              Some ([Recv_xfer_less_than_expected (len m) (len m + 1)], info))"
proof -
  from reach have inv: "ti_sci_inv info" and pos: "0 \<le> sint (max_msg_size (desc info))"
    by (rule reached_inv)+
  note r = rx_callback_expected_aux [OF inv pos m bit]
  note a = inv_allocated [OF inv bit]
  show ?thesis
    using r(2) a(2) unfolding r(1) by (auto simp: Let_def xfer_store_def)
qed

theorem rx_callback_expected_witness:
  "reached k2g_env [Get TI_SCI_MSG_VERSION 0 8 44] = Some k2g_held \<and>
   3 < length (buf version_reply) \<and> len version_reply \<le> length (buf version_reply) \<and>
   test_bit (unat (hdr_seq (buf version_reply))) (xfer_alloc_table (minfo k2g_held)) =
     Some True \<and>
   len version_reply = rx_len (xfer_block (minfo k2g_held) ! 0) \<and>
   (\<exists>info'. ti_sci_rx_callback k2g_held version_reply = Some ([], info') \<and>
      xfer_done (xfer_block (minfo info') ! 0) = xfer_done (xfer_block (minfo k2g_held) ! 0) + 1) \<and>
   ti_sci_rx_callback k2g_held (version_reply\<lparr>len := 43\<rparr>) =
     Some ([Recv_xfer_less_than_expected 43 44], k2g_held)"
proof -
  let ?short = "version_reply\<lparr>len := 43\<rparr>"
  have b: "3 < length (buf version_reply)" "3 < length (buf ?short)"
    by code_simp+
  have l: "len version_reply \<le> length (buf version_reply)" "len ?short \<le> length (buf ?short)"
    by code_simp+
  have t: "test_bit (unat (hdr_seq (buf version_reply))) (xfer_alloc_table (minfo k2g_held)) =
      Some True"
    "test_bit (unat (hdr_seq (buf ?short))) (xfer_alloc_table (minfo k2g_held)) = Some True"
    by code_simp+
  have v: "unat (hdr_seq (buf version_reply)) = 0" "unat (hdr_seq (buf ?short)) = 0"
    by code_simp+
  have e: "len version_reply = rx_len (xfer_block (minfo k2g_held) ! 0)"
    "len ?short + 1 = rx_len (xfer_block (minfo k2g_held) ! 0)"
    by code_simp+
  have n: "len ?short = 43" "len ?short + 1 = 44"
    by simp_all
  note exact = rx_callback_expected [OF k2g_held_reached b(1) l(1) t(1),
      THEN conjunct2, THEN conjunct1, unfolded v(1), rule_format, OF e(1)]
  note shorter = rx_callback_expected [OF k2g_held_reached b(2) l(2) t(2),
      THEN conjunct2, THEN conjunct2, unfolded v(2), rule_format, OF e(2), unfolded n]
  from exact shorter k2g_held_reached b(1) l(1) t(1) e(1)
  show ?thesis
    by simp
qed

subsection \<open>Unexpected arrivals\<close>

text \<open>
  Claim C4. A message whose sequence number names a clear bit of the allocation table
  changes nothing: the callback writes one error line and returns the state it was
  given (every slot's buffer, \<open>rx_len\<close> and completion, the table and the semaphore), and
  it returns normally.
\<close>

theorem rx_callback_unexpected:
  assumes "3 < length (buf m)"
    and "test_bit (unat (hdr_seq (buf m))) (xfer_alloc_table (minfo info)) = Some False"
  shows "ti_sci_rx_callback info m =
           Some ([Message_not_expected (unat (hdr_seq (buf m)))], info)"
  using assms by (simp add: ti_sci_rx_callback_def Let_def)

theorem rx_callback_unexpected_witness:
  "3 < length (buf version_reply) \<and>
   test_bit (unat (hdr_seq (buf version_reply))) (xfer_alloc_table (minfo k2g_info)) =
     Some False \<and>
   ti_sci_rx_callback k2g_info version_reply = Some ([Message_not_expected 0], k2g_info)"
proof -
  have b: "3 < length (buf version_reply)"
    by code_simp
  have t: "test_bit (unat (hdr_seq (buf version_reply))) (xfer_alloc_table (minfo k2g_info)) =
      Some False"
    by code_simp
  have s: "unat (hdr_seq (buf version_reply)) = 0"
    by code_simp
  show ?thesis
    using rx_callback_unexpected [OF b t] b t by (simp add: s)
qed

subsection \<open>A failed exchange gives its slot back\<close>

text \<open>
  Claim C5. In every state the driver reaches, when the exchange \<open>ti_sci_cmd_get_revision\<close>
  has taken slot \<open>i\<close> and then fails, because the send returns a negative value or because
  the completion of the slot is still unsignalled when the wait ends, it returns that
  value of the send, or \<open>-ETIMEDOUT\<close>. At the return the bit of the slot, set by the
  allocation, is clear again and the table is as before the exchange; the semaphore count
  is one above what the allocation left, which is the count before the exchange; and the
  next allocation succeeds, with the same slot.
\<close>

theorem failed_exchange_releases:
  assumes reach: "reached env ops = Some info"
    and get: "ti_sci_get_one_xfer info TI_SCI_MSG_VERSION 0 sizeof_hdr sizeof_resp_version =
                Some (Inr i, info1)"
    and fail: "s < 0 \<or>
               (\<exists>info2. rx_callbacks info1 ms = Some info2 \<and>
                  xfer_done (xfer_block (minfo info2) ! i) = 0)"
  shows "\<exists>info'. ti_sci_cmd_get_revision info s ms =
                    Some (if s < 0 then s else - ETIMEDOUT, info') \<and>
           test_bit i (xfer_alloc_table (minfo info1)) = Some True \<and>
           sem_xfer_count (minfo info1) + 1 = sem_xfer_count (minfo info) \<and>
           test_bit i (xfer_alloc_table (minfo info')) = Some False \<and>
           xfer_alloc_table (minfo info') = xfer_alloc_table (minfo info) \<and>
           sem_xfer_count (minfo info') = sem_xfer_count (minfo info1) + 1 \<and>
           (\<exists>info''. ti_sci_get_one_xfer info' TI_SCI_MSG_VERSION 0 sizeof_hdr sizeof_resp_version =
                       Some (Inr i, info''))"
proof -
  from reach have inv: "ti_sci_inv info" by (rule reached_inv)
  note g = get_one_xfer_Inr [OF inv get]
  note l = inv_index [OF inv g(7)]
  from inv_index(2) [OF g(10)] g(7) have l1: "i < length (xfer_block (minfo info1))"
    unfolding g(2) by (simp add: got_fields)
  have x: "\<exists>info2. ti_sci_do_xfer info1 i s ms = Some (if s < 0 then s else - ETIMEDOUT, info2)"
  proof (cases "s < 0")
    case True
    then show ?thesis by (simp add: ti_sci_do_xfer_def)
  next
    case False
    with fail obtain info2 where r: "rx_callbacks info1 ms = Some info2"
      and d: "xfer_done (xfer_block (minfo info2) ! i) = 0" by blast
    from rx_callbacks_inv [OF g(10) r] have "ti_sci_inv info2" "desc info2 = desc info1" by simp_all
    with inv_index(2) [of info2 i] g(7) have "i < length (xfer_block (minfo info2))"
      unfolding g(2) by (simp add: got_fields)
    with False r d show ?thesis
      by (simp add: ti_sci_do_xfer_def xfer_at_def wait_for_completion_timeout_def Let_def)
  qed
  then obtain info2 where x: "ti_sci_do_xfer info1 i s ms =
      Some (if s < 0 then s else - ETIMEDOUT, info2)" by blast
  from cmd_get_revision_exchange [OF inv get x] obtain info' where
    c: "ti_sci_cmd_get_revision info s ms = Some (if s < 0 then s else - ETIMEDOUT, info')"
    and i': "ti_sci_inv info'" and d': "desc info' = desc info"
    and t': "xfer_alloc_table (minfo info') = xfer_alloc_table (minfo info)"
    and s': "sem_xfer_count (minfo info') = sem_xfer_count (minfo info)"
      "sem_xfer_count (minfo info') = sem_xfer_count (minfo info1) + 1"
    by blast
  have again: "ti_sci_get_one_xfer info' TI_SCI_MSG_VERSION 0 sizeof_hdr sizeof_resp_version =
      Some (Inr i, got info' TI_SCI_MSG_VERSION 0 sizeof_hdr sizeof_resp_version i)"
    using g(1,3,4,5,6) unfolding get_one_xfer_cases [OF i'] d' t' s'(1) by simp
  have b1: "test_bit i (xfer_alloc_table (minfo info1)) = Some True"
    using l(1) unfolding g(2) by (simp add: got_fields test_bit_def)
  have b': "test_bit i (xfer_alloc_table (minfo info')) = Some False"
    using l(1) g(8) unfolding t' by (simp add: test_bit_def)
  from c b1 b' t' s' again show ?thesis by auto
qed

theorem failed_exchange_releases_witness:
  "reached k2g_env [] = Some k2g_info \<and>
   ti_sci_get_one_xfer k2g_info TI_SCI_MSG_VERSION 0 sizeof_hdr sizeof_resp_version =
     Some (Inr 0, k2g_held) \<and>
   (\<exists>info'. ti_sci_cmd_get_revision k2g_info (- 5) [] = Some (- 5, info') \<and>
      test_bit 0 (xfer_alloc_table (minfo info')) = Some False \<and>
      sem_xfer_count (minfo info') = sem_xfer_count (minfo k2g_held) + 1) \<and>
   rx_callbacks k2g_held [] = Some k2g_held \<and>
   xfer_done (xfer_block (minfo k2g_held) ! 0) = 0 \<and>
   (\<exists>info'. ti_sci_cmd_get_revision k2g_info 0 [] = Some (- ETIMEDOUT, info') \<and>
      test_bit 0 (xfer_alloc_table (minfo info')) = Some False \<and>
      sem_xfer_count (minfo info') = sem_xfer_count (minfo k2g_held) + 1)"
proof -
  have g: "ti_sci_get_one_xfer k2g_info TI_SCI_MSG_VERSION 0 sizeof_hdr sizeof_resp_version =
      Some (Inr 0, k2g_held)"
    by code_simp
  have d: "xfer_done (xfer_block (minfo k2g_held) ! 0) = 0"
    by code_simp
  have f1: "(- 5 :: int) < 0 \<or>
      (\<exists>info2. rx_callbacks k2g_held [] = Some info2 \<and>
         xfer_done (xfer_block (minfo info2) ! 0) = 0)"
    by simp
  have f2: "(0 :: int) < 0 \<or>
      (\<exists>info2. rx_callbacks k2g_held [] = Some info2 \<and>
         xfer_done (xfer_block (minfo info2) ! 0) = 0)"
    using d by simp
  from failed_exchange_releases [OF k2g_info_reached g f1]
    failed_exchange_releases [OF k2g_info_reached g f2] k2g_info_reached g d
  show ?thesis
    by auto
qed

subsection \<open>The size guard of an allocation\<close>

text \<open>
  Claim C6. With a maximum message size that is not negative, \<open>ti_sci_get_one_xfer\<close>
  returns \<open>-ERANGE\<close> exactly when the transmit size or the receive size exceeds the
  maximum or the receive size is smaller than the header. The guard comes before the
  semaphore: when it fires, the result is \<open>-ERANGE\<close> whatever the semaphore count is, and
  the state returned is the state given (no credit taken, no bit set).
\<close>

theorem get_one_xfer_erange:
  assumes "0 \<le> sint (max_msg_size (desc info))"
  shows "((\<exists>info'. ti_sci_get_one_xfer info msg_type msg_flags tx rx =
             Some (Inl (- ERANGE), info')) \<longleftrightarrow>
           int tx > sint (max_msg_size (desc info)) \<or>
           int rx > sint (max_msg_size (desc info)) \<or> rx < sizeof_hdr) \<and>
         (int tx > sint (max_msg_size (desc info)) \<or>
          int rx > sint (max_msg_size (desc info)) \<or> rx < sizeof_hdr \<longrightarrow>
          ti_sci_get_one_xfer info msg_type msg_flags tx rx = Some (Inl (- ERANGE), info))"
proof -
  have sz: "size_t_of_int (max_msg_size (desc info)) = nat (sint (max_msg_size (desc info)))"
    using assms by (rule size_t_of_int_nat)
  have g: "(rx > size_t_of_int (max_msg_size (desc info)) \<or>
            tx > size_t_of_int (max_msg_size (desc info)) \<or>
            rx < sizeof_hdr \<or> rx < sizeof_hdr) \<longleftrightarrow>
           (int tx > sint (max_msg_size (desc info)) \<or>
            int rx > sint (max_msg_size (desc info)) \<or> rx < sizeof_hdr)"
    unfolding sz using assms by auto
  have fires: "ti_sci_get_one_xfer info msg_type msg_flags tx rx = Some (Inl (- ERANGE), info)"
    if "int tx > sint (max_msg_size (desc info)) \<or>
        int rx > sint (max_msg_size (desc info)) \<or> rx < sizeof_hdr"
    using that g by (simp add: ti_sci_get_one_xfer_def)
  have only: "(\<exists>info'. ti_sci_get_one_xfer info msg_type msg_flags tx rx =
                 Some (Inl (- ERANGE), info')) \<longleftrightarrow>
           int tx > sint (max_msg_size (desc info)) \<or>
           int rx > sint (max_msg_size (desc info)) \<or> rx < sizeof_hdr"
    unfolding g [symmetric]
    by (auto simp: ti_sci_get_one_xfer_def down_timeout_def ERANGE_def ETIME_def Let_def
        split: option.splits if_splits)
  from fires only show ?thesis by blast
qed

theorem get_one_xfer_erange_witness:
  "0 \<le> sint (max_msg_size (desc k2g_info)) \<and>
   ti_sci_get_one_xfer k2g_info TI_SCI_MSG_VERSION 0 65 44 = Some (Inl (- ERANGE), k2g_info) \<and>
   ti_sci_get_one_xfer k2g_info TI_SCI_MSG_VERSION 0 8 7 = Some (Inl (- ERANGE), k2g_info) \<and>
   (\<nexists>info'. ti_sci_get_one_xfer k2g_info TI_SCI_MSG_VERSION 0 0 64 =
      Some (Inl (- ERANGE), info'))"
proof -
  have d: "sint (max_msg_size (desc k2g_info)) = 64"
    by code_simp
  have h: "sizeof_hdr = 8"
    by (simp add: sizeof_hdr_def)
  show ?thesis
    using get_one_xfer_erange [of k2g_info TI_SCI_MSG_VERSION 0 65 44]
      get_one_xfer_erange [of k2g_info TI_SCI_MSG_VERSION 0 8 7]
      get_one_xfer_erange [of k2g_info TI_SCI_MSG_VERSION 0 0 64]
    by (simp add: d h)
qed

subsection \<open>The slot an allocation takes\<close>

text \<open>
  Claim C7. In every state the driver reaches: when the semaphore has a credit, some bit
  among the first \<open>max_msgs\<close> is clear; and when an allocation succeeds with slot \<open>i\<close>,
  then \<open>i\<close> is the lowest index whose bit was clear, that bit is now set and no other bit
  changed, one credit was taken, the header in the slot's buffer carries \<open>i\<close> as sequence
  number, and the completion of the slot is re-armed (its counter is 0).
\<close>

theorem get_one_xfer_lowest_free:
  assumes reach: "reached env ops = Some info"
  shows "(0 < sem_xfer_count (minfo info) \<longrightarrow>
            (\<exists>j < nat (sint (max_msgs (desc info))). \<not> xfer_alloc_table (minfo info) ! j)) \<and>
         (\<forall>i info'. ti_sci_get_one_xfer info msg_type msg_flags tx rx = Some (Inr i, info') \<longrightarrow>
            i < nat (sint (max_msgs (desc info))) \<and>
            \<not> xfer_alloc_table (minfo info) ! i \<and>
            (\<forall>j<i. xfer_alloc_table (minfo info) ! j) \<and>
            xfer_alloc_table (minfo info') = (xfer_alloc_table (minfo info))[i := True] \<and>
            test_bit i (xfer_alloc_table (minfo info')) = Some True \<and>
            0 < sem_xfer_count (minfo info) \<and>
            sem_xfer_count (minfo info') = sem_xfer_count (minfo info) - 1 \<and>
            unat (hdr_seq (xfer_buf (xfer_block (minfo info') ! i))) = i \<and>
            xfer_done (xfer_block (minfo info') ! i) = 0)"
  using gate_credit_gives_free_slot [OF reach] get_one_xfer_Inr_slot [OF reach]
  by blast

theorem get_one_xfer_lowest_free_witness:
  "reached k2g_env [Get TI_SCI_MSG_VERSION 0 8 44] = Some k2g_held \<and>
   0 < sem_xfer_count (minfo k2g_held) \<and>
   (\<exists>j < nat (sint (max_msgs (desc k2g_held))). \<not> xfer_alloc_table (minfo k2g_held) ! j) \<and>
   (\<exists>info'. ti_sci_get_one_xfer k2g_held TI_SCI_MSG_VERSION 0 8 44 = Some (Inr 1, info') \<and>
      xfer_alloc_table (minfo k2g_held) ! 0 \<and> \<not> xfer_alloc_table (minfo k2g_held) ! 1 \<and>
      test_bit 1 (xfer_alloc_table (minfo info')) = Some True \<and>
      unat (hdr_seq (xfer_buf (xfer_block (minfo info') ! 1))) = 1 \<and>
      xfer_done (xfer_block (minfo info') ! 1) = 0)"
proof -
  have s: "0 < sem_xfer_count (minfo k2g_held)"
    by code_simp
  have "map_option fst (ti_sci_get_one_xfer k2g_held TI_SCI_MSG_VERSION 0 8 44) = Some (Inr 1)"
    by code_simp
  then obtain info' where
    g: "ti_sci_get_one_xfer k2g_held TI_SCI_MSG_VERSION 0 8 44 = Some (Inr 1, info')"
    by auto
  from get_one_xfer_lowest_free [OF k2g_held_reached, of TI_SCI_MSG_VERSION 0 8 44] s g
    k2g_held_reached
  show ?thesis
    by auto
qed

subsection \<open>Releasing a slot twice\<close>

text \<open>
  Claim C8, as the code has it. \<open>ti_sci_put_one_xfer\<close> has no guard: a second release of
  the same slot, with no allocation in between, clears the already clear bit again (the
  table is the same as after one release) and raises the semaphore a second time, so the
  count ends one above what a single release leaves.
\<close>

theorem put_one_xfer_twice:
  assumes "ti_sci_put_one_xfer mi xfer_ix = Some mi1"
  shows "\<exists>mi2. ti_sci_put_one_xfer mi1 xfer_ix = Some mi2 \<and>
           sem_xfer_count mi2 = sem_xfer_count mi1 + 1 \<and>
           sem_xfer_count mi2 = sem_xfer_count mi + 2 \<and>
           xfer_alloc_table mi2 = xfer_alloc_table mi1 \<and>
           xfer_block mi2 = xfer_block mi"
  using assms
  by (auto simp: ti_sci_put_one_xfer_def xfer_at_def clear_bit_def up_def Let_def
      split: option.splits if_splits)

theorem put_one_xfer_twice_witness:
  "\<exists>mi1 mi2. ti_sci_put_one_xfer (minfo k2g_held) 0 = Some mi1 \<and>
     ti_sci_put_one_xfer mi1 0 = Some mi2 \<and>
     sem_xfer_count mi2 = sem_xfer_count mi1 + 1 \<and>
     sem_xfer_count mi2 = sem_xfer_count (minfo k2g_held) + 2 \<and>
     xfer_alloc_table mi2 = xfer_alloc_table mi1 \<and>
     xfer_block mi2 = xfer_block (minfo k2g_held)"
proof -
  have "ti_sci_put_one_xfer (minfo k2g_held) 0 \<noteq> None"
    by code_simp
  then obtain mi1 where p: "ti_sci_put_one_xfer (minfo k2g_held) 0 = Some mi1"
    by blast
  from put_one_xfer_twice [OF p] p show ?thesis
    by blast
qed

text \<open>
  On K2G, with slot 0 held by one caller and 127 credits left: one release leaves 128
  credits, the pool size; releasing the same slot again leaves 129, one more than the
  single release.
\<close>

theorem put_one_xfer_twice_counterexample:
  "nat (sint (max_msgs (desc k2g_held))) = 128 \<and>
   sem_xfer_count (minfo k2g_held) = 127 \<and>
   ti_sci_put_one_xfer (minfo k2g_held) 0 = Some k2g_put_once \<and>
   sem_xfer_count k2g_put_once = 128 \<and>
   ti_sci_put_one_xfer k2g_put_once 0 = Some k2g_put_twice \<and>
   sem_xfer_count k2g_put_twice = 129"
  by code_simp

subsection \<open>The pool size against the sequence field\<close>

text \<open>
  Claim C9. Once the device is matched and the instance allocated, probe returns
  \<open>-EINVAL\<close> with no instance, whatever the allocator would answer for the pool, when
  \<open>max_msgs\<close> is 256 (2 to the 8 bits of the sequence field) or more. With \<open>max_msgs\<close>
  below 256 probe goes on to allocate the pool (it returns \<open>-ENOMEM\<close> when that
  allocation fails), and it does not return \<open>-EINVAL\<close> unless a mailbox channel request or
  the send returns that very error.
\<close>

theorem probe_max_msgs_check:
  assumes "env_of_match_device env = Some d" "env_kzalloc_info env"
  shows "(2 ^ 8 \<le> sint (max_msgs d) \<longrightarrow> ti_sci_probe env = Some (- EINVAL, None)) \<and>
         (sint (max_msgs d) < 2 ^ 8 \<longrightarrow>
            (\<not> env_kcalloc_xfer_block env \<longrightarrow> ti_sci_probe env = Some (- ENOMEM, None)) \<and>
            (env_chan_rx env \<noteq> Some (- EINVAL) \<longrightarrow> env_chan_tx env \<noteq> Some (- EINVAL) \<longrightarrow>
             env_mbox_send_message env \<noteq> - EINVAL \<longrightarrow>
             (\<forall>st. ti_sci_probe env \<noteq> Some (- EINVAL, st))))"
proof (intro conjI impI allI)
  assume "2 ^ 8 \<le> sint (max_msgs d)"
  with assms show "ti_sci_probe env = Some (- EINVAL, None)"
    by (simp add: ti_sci_probe_def sizeof_hdr_seq_def)
next
  assume "sint (max_msgs d) < 2 ^ 8" "\<not> env_kcalloc_xfer_block env"
  with assms show "ti_sci_probe env = Some (- ENOMEM, None)"
    by (simp add: ti_sci_probe_def sizeof_hdr_seq_def)
next
  fix st
  assume r: "sint (max_msgs d) < 2 ^ 8" and c: "env_chan_rx env \<noteq> Some (- EINVAL)"
    "env_chan_tx env \<noteq> Some (- EINVAL)" "env_mbox_send_message env \<noteq> - EINVAL"
  show "ti_sci_probe env \<noteq> Some (- EINVAL, st)"
  proof
    assume p: "ti_sci_probe env = Some (- EINVAL, st)"
    with assms r c obtain info0 info' where
      "ti_sci_cmd_get_revision info0 (env_mbox_send_message env) (env_arrivals env) =
         Some (- EINVAL, info')"
      by (auto simp: ti_sci_probe_def sizeof_hdr_seq_def Let_def EINVAL_def ENOMEM_def
          split: if_splits option.splits)
    from cmd_get_revision_codes [OF this] c(3) show False
      by (simp add: EINVAL_def ERANGE_def ETIME_def ETIMEDOUT_def)
  qed
qed

theorem probe_max_msgs_check_witness:
  "env_of_match_device many_env = Some (the (env_of_match_device many_env)) \<and>
   env_kzalloc_info many_env \<and>
   (2 :: int) ^ 8 \<le> sint (max_msgs (the (env_of_match_device many_env))) \<and>
   ti_sci_probe many_env = Some (- EINVAL, None) \<and>
   env_of_match_device k2g_env = Some ti_sci_pmmc_k2g_desc \<and> env_kzalloc_info k2g_env \<and>
   sint (max_msgs ti_sci_pmmc_k2g_desc) < 2 ^ 8 \<and>
   ti_sci_probe (k2g_env\<lparr>env_kcalloc_xfer_block := False\<rparr>) = Some (- ENOMEM, None) \<and>
   env_chan_rx k2g_env \<noteq> Some (- EINVAL) \<and> env_chan_tx k2g_env \<noteq> Some (- EINVAL) \<and>
   env_mbox_send_message k2g_env \<noteq> - EINVAL \<and>
   (\<nexists>st. ti_sci_probe k2g_env = Some (- EINVAL, st))"
proof -
  have m: "env_of_match_device many_env = Some (the (env_of_match_device many_env))"
    "env_kzalloc_info many_env"
    "(2 :: int) ^ 8 \<le> sint (max_msgs (the (env_of_match_device many_env)))"
    by code_simp+
  have k: "env_of_match_device k2g_env = Some ti_sci_pmmc_k2g_desc" "env_kzalloc_info k2g_env"
    "sint (max_msgs ti_sci_pmmc_k2g_desc) < 2 ^ 8"
    "env_chan_rx k2g_env \<noteq> Some (- EINVAL)" "env_chan_tx k2g_env \<noteq> Some (- EINVAL)"
    "env_mbox_send_message k2g_env \<noteq> - EINVAL"
    by code_simp+
  have f: "env_of_match_device (k2g_env\<lparr>env_kcalloc_xfer_block := False\<rparr>) =
      Some ti_sci_pmmc_k2g_desc"
    "env_kzalloc_info (k2g_env\<lparr>env_kcalloc_xfer_block := False\<rparr>)"
    "\<not> env_kcalloc_xfer_block (k2g_env\<lparr>env_kcalloc_xfer_block := False\<rparr>)"
    by code_simp+
  from probe_max_msgs_check [OF m(1,2)] probe_max_msgs_check [OF k(1,2)]
    probe_max_msgs_check [OF f(1,2)] m k f(3)
  show ?thesis
    by simp
qed

subsection \<open>No lower bound on the transmit size\<close>

text \<open>
  Claim C10. In every state the driver reaches, for a receive size between the header
  size and \<open>max_msg_size\<close> and every transmit size from 0 to \<open>max_msg_size\<close>, also one
  below the header size, the size guard lets the allocation through (its disjuncts test
  the receive size against the header size twice and the transmit size never): with a
  credit on the semaphore the allocation succeeds, records the transmit size as it is and
  writes the whole header (type, host, sequence number, flags) into the buffer; with no
  credit it returns \<open>-ETIME\<close>, not \<open>-ERANGE\<close>.
\<close>

theorem get_one_xfer_small_tx:
  assumes reach: "reached env ops = Some info"
    and tx: "int tx \<le> sint (max_msg_size (desc info))"
    and rx: "sizeof_hdr \<le> rx" "int rx \<le> sint (max_msg_size (desc info))"
  shows "(sem_xfer_count (minfo info) = 0 \<longrightarrow>
            ti_sci_get_one_xfer info msg_type msg_flags tx rx = Some (Inl (- ETIME), info)) \<and>
         (0 < sem_xfer_count (minfo info) \<longrightarrow>
            (\<exists>i info'. ti_sci_get_one_xfer info msg_type msg_flags tx rx = Some (Inr i, info') \<and>
               i < length (xfer_block (minfo info')) \<and>
               tx_message_len (xfer_block (minfo info') ! i) = tx \<and>
               sizeof_hdr \<le> length (xfer_buf (xfer_block (minfo info') ! i)) \<and>
               hdr_type (xfer_buf (xfer_block (minfo info') ! i)) = msg_type \<and>
               hdr_host (xfer_buf (xfer_block (minfo info') ! i)) = host_id (desc info) \<and>
               unat (hdr_seq (xfer_buf (xfer_block (minfo info') ! i))) = i \<and>
               hdr_flags (xfer_buf (xfer_block (minfo info') ! i)) = msg_flags))"
proof -
  from reach have inv: "ti_sci_inv info" and nn: "0 \<le> sint (max_msg_size (desc info))"
    by (rule reached_inv)+
  have sz: "size_t_of_int (max_msg_size (desc info)) = nat (sint (max_msg_size (desc info)))"
    using nn by (rule size_t_of_int_nat)
  have guard: "\<not> (rx > size_t_of_int (max_msg_size (desc info)) \<or>
        tx > size_t_of_int (max_msg_size (desc info)) \<or> rx < sizeof_hdr)"
    unfolding sz using tx rx by auto
  let ?i = "first_zero (take (nat (sint (max_msgs (desc info)))) (xfer_alloc_table (minfo info)))"
  let ?g = "got info msg_type msg_flags tx rx ?i"
  have busy: "ti_sci_get_one_xfer info msg_type msg_flags tx rx = Some (Inl (- ETIME), info)"
    if "sem_xfer_count (minfo info) = 0"
    using that guard by (simp add: get_one_xfer_cases [OF inv])
  have free: "\<exists>i info'. ti_sci_get_one_xfer info msg_type msg_flags tx rx = Some (Inr i, info') \<and>
               i < length (xfer_block (minfo info')) \<and>
               tx_message_len (xfer_block (minfo info') ! i) = tx \<and>
               sizeof_hdr \<le> length (xfer_buf (xfer_block (minfo info') ! i)) \<and>
               hdr_type (xfer_buf (xfer_block (minfo info') ! i)) = msg_type \<and>
               hdr_host (xfer_buf (xfer_block (minfo info') ! i)) = host_id (desc info) \<and>
               unat (hdr_seq (xfer_buf (xfer_block (minfo info') ! i))) = i \<and>
               hdr_flags (xfer_buf (xfer_block (minfo info') ! i)) = msg_flags"
    if sem: "0 < sem_xfer_count (minfo info)"
  proof -
    have get: "ti_sci_get_one_xfer info msg_type msg_flags tx rx = Some (Inr ?i, ?g)"
      using sem guard by (simp add: get_one_xfer_cases [OF inv])
    note g = get_one_xfer_Inr [OF inv get]
    note l = inv_index [OF inv g(7)]
    from l(4) have len: "sizeof_hdr \<le> length (xfer_buf (xfer_block (minfo info) ! ?i))"
      using g(4,5) by (simp add: slot_inv_def)
    have slot: "xfer_block (minfo ?g) ! ?i =
        (xfer_block (minfo info) ! ?i)
          \<lparr>tx_message_len := tx, rx_len := rx mod 256, xfer_done := 0,
           xfer_buf := hdr_set_flags msg_flags (hdr_set_host (host_id (desc info))
             (hdr_set_type msg_type (hdr_set_seq (of_nat ?i)
               (xfer_buf (xfer_block (minfo info) ! ?i)))))\<rparr>"
      using l by (simp add: got_def xfer_store_def)
    have "length (xfer_block (minfo ?g)) = length (xfer_block (minfo info))"
      by (simp add: got_def xfer_store_def)
    with l len get show ?thesis
      by (simp add: slot hdr_get_set [OF len] hdr_seq_stamp [OF len] unat_of_nat)
  qed
  from busy free show ?thesis by blast
qed

theorem get_one_xfer_small_tx_witness:
  "reached k2g_env [] = Some k2g_info \<and>
   int 0 \<le> sint (max_msg_size (desc k2g_info)) \<and> sizeof_hdr \<le> 44 \<and>
   int 44 \<le> sint (max_msg_size (desc k2g_info)) \<and>
   0 < sem_xfer_count (minfo k2g_info) \<and>
   (\<exists>i info'. ti_sci_get_one_xfer k2g_info TI_SCI_MSG_VERSION 0 0 44 = Some (Inr i, info') \<and>
      tx_message_len (xfer_block (minfo info') ! i) = 0 \<and>
      sizeof_hdr \<le> length (xfer_buf (xfer_block (minfo info') ! i)) \<and>
      hdr_type (xfer_buf (xfer_block (minfo info') ! i)) = TI_SCI_MSG_VERSION \<and>
      hdr_host (xfer_buf (xfer_block (minfo info') ! i)) = host_id (desc k2g_info)) \<and>
   sem_xfer_count (minfo (the (reached wide_env
     [Get TI_SCI_MSG_VERSION 0 8 44, Get TI_SCI_MSG_VERSION 0 8 44]))) = 0 \<and>
   map_option fst (ti_sci_get_one_xfer (the (reached wide_env
     [Get TI_SCI_MSG_VERSION 0 8 44, Get TI_SCI_MSG_VERSION 0 8 44])) TI_SCI_MSG_VERSION 0 0 44) =
     Some (Inl (- ETIME))"
proof -
  let ?full = "the (reached wide_env
     [Get TI_SCI_MSG_VERSION 0 8 44, Get TI_SCI_MSG_VERSION 0 8 44])"
  have k: "int 0 \<le> sint (max_msg_size (desc k2g_info))" "sizeof_hdr \<le> 44"
    "int 44 \<le> sint (max_msg_size (desc k2g_info))" "0 < sem_xfer_count (minfo k2g_info)"
    by code_simp+
  have "reached wide_env [Get TI_SCI_MSG_VERSION 0 8 44, Get TI_SCI_MSG_VERSION 0 8 44] \<noteq> None"
    by code_simp
  then have r: "reached wide_env [Get TI_SCI_MSG_VERSION 0 8 44, Get TI_SCI_MSG_VERSION 0 8 44] =
      Some ?full"
    by auto
  have w: "int 0 \<le> sint (max_msg_size (desc ?full))"
    "int 44 \<le> sint (max_msg_size (desc ?full))" "sem_xfer_count (minfo ?full) = 0"
    by code_simp+
  from get_one_xfer_small_tx [OF k2g_info_reached k(1,2,3), of TI_SCI_MSG_VERSION 0]
    get_one_xfer_small_tx [OF r w(1) k(2) w(2), of TI_SCI_MSG_VERSION 0] k w(3) k2g_info_reached
  show ?thesis
    by auto
qed

end
